theory Spec2Isabelle
  imports Complex_Main
begin

section \<open>Values and errors\<close>

text \<open>
  The program is a single Python script (SIR.py). Its numeric core is lines 66 to 92 and
  line 152. Python floats and numpy float64 values are idealised as reals; the widget
  values N, days and I0 are Python ints and are integers here, converted where the
  script's arithmetic converts them.

  \<open>ZeroDivisionError\<close>, \<open>ValueError\<close> and \<open>IndexError\<close> are the exceptions Python and
  numpy raise on the paths modelled. A numpy division by zero raises nothing: it yields
  inf or nan with a RuntimeWarning; such a value is no real number and the model reports
  it as \<open>NonFiniteResult\<close>. \<open>DomainError\<close> and \<open>ValidationError\<close> are the error classes
  the specification names; no line of the script constructs either.
\<close>

datatype py_error =
    ZeroDivisionError
  | ValueError
  | IndexError
  | NonFiniteResult
  | DomainError string
  | ValidationError string

type_synonym state = "real \<times> real \<times> real \<times> real"

text \<open>Python float division \<open>a / b\<close>: raises on a zero divisor.\<close>

definition py_truediv :: "real \<Rightarrow> real \<Rightarrow> py_error + real" where
  "py_truediv a b = (if b = 0 then Inl ZeroDivisionError else Inr (a / b))"

text \<open>numpy float64 division \<open>a / b\<close>: a zero divisor gives inf or nan.\<close>

definition np_truediv :: "real \<Rightarrow> real \<Rightarrow> py_error + real" where
  "np_truediv a b = (if b = 0 then Inl NonFiniteResult else Inr (a / b))"

section \<open>Double-precision rounding\<close>

text \<open>
  Most statements below are about the real values of the script's expressions. Where
  the rounding of double arithmetic changes what the script shows (a sign next to the
  threshold, a tie of the two-decimal rounding), the same expressions are also given with
  every operation rounded: \<open>f64\<close> rounds a real to the nearest number with a 53-bit
  significand, ties to the even significand. The exponent range is taken as unbounded;
  no value in the script's input ranges overflows or is subnormal.
\<close>

definition round_half_even :: "real \<Rightarrow> int" where
  "round_half_even x =
     (let f = \<lfloor>x\<rfloor>; r = x - of_int f
      in if r < 1 / 2 then f
         else if 1 / 2 < r then f + 1
         else if even f then f else f + 1)"

definition f64 :: "real \<Rightarrow> real" where
  "f64 x =
     (if x = 0 then 0
      else (let e = \<lfloor>log 2 \<bar>x\<bar>\<rfloor> - 52
            in of_int (round_half_even (x / 2 powi e)) * 2 powi e))"

definition py_truediv_f64 :: "real \<Rightarrow> real \<Rightarrow> py_error + real" where
  "py_truediv_f64 a b = (if b = 0 then Inl ZeroDivisionError else Inr (f64 (a / b)))"

definition np_truediv_f64 :: "real \<Rightarrow> real \<Rightarrow> py_error + real" where
  "np_truediv_f64 a b = (if b = 0 then Inl NonFiniteResult else Inr (f64 (a / b)))"

section \<open>The evaluator (lines 71 to 77)\<close>

text \<open>
  \<open>odeint\<close> calls \<open>SIR_model\<close> with a numpy vector \<open>y\<close>, so \<open>S\<close> and \<open>I\<close> are numpy
  scalars and both divisions by \<open>N\<close> are numpy divisions. The argument \<open>t\<close> is received
  and not read.
\<close>

definition SIR_model ::
  "state \<Rightarrow> real \<Rightarrow> real \<Rightarrow> real \<Rightarrow> real \<Rightarrow> real \<Rightarrow> py_error + state" where
  "SIR_model y t N beta gamma mu =
     (case y of (S, I, R, D) \<Rightarrow>
        (case np_truediv (- beta * S * I) N of
           Inl e \<Rightarrow> Inl e
         | Inr dSdt \<Rightarrow>
             (case np_truediv (beta * S * I) N of
                Inl e \<Rightarrow> Inl e
              | Inr q \<Rightarrow>
                  (let dIdt = q - gamma * I - mu * I;
                       dRdt = gamma * I;
                       dDdt = mu * I
                   in Inr (dSdt, dIdt, dRdt, dDdt)))))"

text \<open>
  The same lines in double arithmetic, operation by operation in Python's order:
  \<open>((-beta * S) * I) / N\<close> and \<open>(((beta * S) * I) / N - gamma * I) - mu * I\<close>.
\<close>

definition SIR_model_f64 ::
  "state \<Rightarrow> real \<Rightarrow> real \<Rightarrow> real \<Rightarrow> real \<Rightarrow> real \<Rightarrow> py_error + state" where
  "SIR_model_f64 y t N beta gamma mu =
     (case y of (S, I, R, D) \<Rightarrow>
        (case np_truediv_f64 (f64 (f64 (- beta * S) * I)) N of
           Inl e \<Rightarrow> Inl e
         | Inr dSdt \<Rightarrow>
             (case np_truediv_f64 (f64 (f64 (beta * S) * I)) N of
                Inl e \<Rightarrow> Inl e
              | Inr q \<Rightarrow>
                  (let dIdt = f64 (f64 (q - f64 (gamma * I)) - f64 (mu * I));
                       dRdt = f64 (gamma * I);
                       dDdt = f64 (mu * I)
                   in Inr (dSdt, dIdt, dRdt, dDdt)))))"

section \<open>Inputs and initial state (lines 23 to 68 and 83)\<close>

text \<open>
  The widgets return values inside their declared ranges: \<open>number_input\<close> with
  \<open>min_value=100, max_value=1000000\<close> for N, sliders over [0.0, 1.0] for \<beta> and \<gamma>,
  over [0.0, 0.1] for \<mu> (or the literal 0.0 when the checkbox is ticked), over
  [1, 365] for days and over [1, N] for I0.
\<close>

definition widget_inputs :: "int \<Rightarrow> real \<Rightarrow> real \<Rightarrow> real \<Rightarrow> int \<Rightarrow> int \<Rightarrow> bool" where
  "widget_inputs N beta gamma mu days I0 \<longleftrightarrow>
     100 \<le> N \<and> N \<le> 1000000
     \<and> 0 \<le> beta \<and> beta \<le> 1
     \<and> 0 \<le> gamma \<and> gamma \<le> 1
     \<and> 0 \<le> mu \<and> mu \<le> 1 / 10
     \<and> 1 \<le> days \<and> days \<le> 365
     \<and> 1 \<le> I0 \<and> I0 \<le> N"

text \<open>\<open>S0 = N - I0; R0 = 0; D0 = 0; y0 = S0, I0, R0, D0\<close>, converted to floats by the solver.\<close>

definition initial_state :: "int \<Rightarrow> int \<Rightarrow> state" where
  "initial_state N I0 =
     (let S0 = N - I0; R0 = 0; D0 = 0
      in (of_int S0, of_int I0, of_int R0, of_int D0))"

definition total :: "state \<Rightarrow> real" where
  "total y = (case y of (S, I, R, D) \<Rightarrow> S + I + R + D)"

section \<open>The time grid (line 80)\<close>

text \<open>
  \<open>numpy.linspace(start, stop, num)\<close> with the default \<open>endpoint=True\<close>: a negative
  \<open>num\<close> raises ValueError; otherwise the samples are \<open>arange(num) * step + start\<close> with
  \<open>step = (stop - start) / (num - 1)\<close>, and the last sample is overwritten with \<open>stop\<close>
  when there is more than one. (For a zero step numpy computes \<open>arange(num) / (num - 1) *
  (stop - start)\<close> instead, which is the same real number.)
\<close>

definition linspace :: "real \<Rightarrow> real \<Rightarrow> int \<Rightarrow> py_error + real list" where
  "linspace start stop num =
     (if num < 0 then Inl ValueError
      else
        (let n = nat num;
             dv = num - 1;
             delta = stop - start;
             y = (if 0 < dv
                  then map (\<lambda>i. real i * (delta / of_int dv) + start) [0..<n]
                  else map (\<lambda>i. real i * delta + start) [0..<n])
         in Inr (if 1 < num then y[n - 1 := stop] else y)))"

definition time_grid :: "int \<Rightarrow> py_error + real list" where
  "time_grid days = linspace 0 (of_int days) (days * 10)"

section \<open>The integrator (lines 83 to 85)\<close>

text \<open>
  \<open>scipy.integrate.odeint\<close> is a library routine outside the repository: it is a
  parameter of the model. It receives the right-hand side, the initial state and the
  grid, and returns one state per grid point or fails.
\<close>

type_synonym rhs = "state \<Rightarrow> real \<Rightarrow> py_error + state"
type_synonym solver = "rhs \<Rightarrow> state \<Rightarrow> real list \<Rightarrow> py_error + state list"

definition integrate ::
  "solver \<Rightarrow> int \<Rightarrow> real \<Rightarrow> real \<Rightarrow> real \<Rightarrow> int \<Rightarrow> int \<Rightarrow> py_error + (real list \<times> state list)" where
  "integrate odeint N beta gamma mu days I0 =
     (case time_grid days of
        Inl e \<Rightarrow> Inl e
      | Inr t \<Rightarrow>
          (case odeint (\<lambda>y s. SIR_model y s (of_int N) beta gamma mu) (initial_state N I0) t of
             Inl e \<Rightarrow> Inl e
           | Inr sol \<Rightarrow> Inr (t, sol)))"

text \<open>\<open>S, I, R, D = sol.T\<close>: the four columns of the solution.\<close>

definition column_S :: "state list \<Rightarrow> real list" where
  "column_S sol = map (\<lambda>(S, I, R, D). S) sol"

definition column_I :: "state list \<Rightarrow> real list" where
  "column_I sol = map (\<lambda>(S, I, R, D). I) sol"

definition column_R :: "state list \<Rightarrow> real list" where
  "column_R sol = map (\<lambda>(S, I, R, D). R) sol"

definition column_D :: "state list \<Rightarrow> real list" where
  "column_D sol = map (\<lambda>(S, I, R, D). D) sol"

section \<open>The metrics (lines 88 to 92 and 152)\<close>

text \<open>
  \<open>numpy.max\<close> raises ValueError on an empty array. \<open>numpy.argmax\<close> does too, and on
  ties returns the index of the first occurrence. Both are written as the left-to-right
  scan that keeps the current best and replaces it only by a strictly larger element.
\<close>

fun amax_scan :: "real \<Rightarrow> real list \<Rightarrow> real" where
  "amax_scan m [] = m"
| "amax_scan m (x # xs) = amax_scan (if m < x then x else m) xs"

definition np_max :: "real list \<Rightarrow> py_error + real" where
  "np_max a = (case a of [] \<Rightarrow> Inl ValueError | x # xs \<Rightarrow> Inr (amax_scan x xs))"

fun argmax_scan :: "nat \<Rightarrow> real \<Rightarrow> nat \<Rightarrow> real list \<Rightarrow> nat" where
  "argmax_scan best m i [] = best"
| "argmax_scan best m i (x # xs) =
     (if m < x then argmax_scan i x (Suc i) xs else argmax_scan best m (Suc i) xs)"

definition np_argmax :: "real list \<Rightarrow> py_error + nat" where
  "np_argmax a = (case a of [] \<Rightarrow> Inl ValueError | x # xs \<Rightarrow> Inr (argmax_scan 0 x 1 xs))"

text \<open>Indexing \<open>a[k]\<close> with a non-negative index, and \<open>a[-1]\<close>.\<close>

definition getitem :: "real list \<Rightarrow> nat \<Rightarrow> py_error + real" where
  "getitem a k = (if k < length a then Inr (a ! k) else Inl IndexError)"

definition getitem_last :: "real list \<Rightarrow> py_error + real" where
  "getitem_last a = (case a of [] \<Rightarrow> Inl IndexError | _ # _ \<Rightarrow> Inr (last a))"

text \<open>\<open>max_infected = np.max(I); day_of_peak = t[np.argmax(I)]\<close>.\<close>

definition peak :: "real list \<Rightarrow> real list \<Rightarrow> py_error + (real \<times> real)" where
  "peak t I =
     (case np_max I of
        Inl e \<Rightarrow> Inl e
      | Inr max_infected \<Rightarrow>
          (case np_argmax I of
             Inl e \<Rightarrow> Inl e
           | Inr k \<Rightarrow>
               (case getitem t k of
                  Inl e \<Rightarrow> Inl e
                | Inr day_of_peak \<Rightarrow> Inr (max_infected, day_of_peak))))"

text \<open>An array divided by a scalar, element by element.\<close>

fun np_truediv_array :: "real list \<Rightarrow> real \<Rightarrow> py_error + real list" where
  "np_truediv_array [] b = Inr []"
| "np_truediv_array (x # xs) b =
     (case np_truediv x b of
        Inl e \<Rightarrow> Inl e
      | Inr q \<Rightarrow>
          (case np_truediv_array xs b of
             Inl e \<Rightarrow> Inl e
           | Inr qs \<Rightarrow> Inr (q # qs)))"

text \<open>
  \<open>Re = (beta / (gamma + mu)) * (S / N)\<close>. The left factor is a division of Python
  floats (the slider values) and is evaluated first; the right factor divides the numpy
  array \<open>S\<close> by \<open>N\<close>; the product scales every element.
\<close>

definition Re_seq :: "real \<Rightarrow> real \<Rightarrow> real \<Rightarrow> real \<Rightarrow> real list \<Rightarrow> py_error + real list" where
  "Re_seq beta gamma mu N S =
     (case py_truediv beta (gamma + mu) of
        Inl e \<Rightarrow> Inl e
      | Inr c \<Rightarrow>
          (case np_truediv_array S N of
             Inl e \<Rightarrow> Inl e
           | Inr f \<Rightarrow> Inr (map (\<lambda>x. c * x) f)))"

text \<open>The same line in double arithmetic.\<close>

fun np_truediv_array_f64 :: "real list \<Rightarrow> real \<Rightarrow> py_error + real list" where
  "np_truediv_array_f64 [] b = Inr []"
| "np_truediv_array_f64 (x # xs) b =
     (case np_truediv_f64 x b of
        Inl e \<Rightarrow> Inl e
      | Inr q \<Rightarrow>
          (case np_truediv_array_f64 xs b of
             Inl e \<Rightarrow> Inl e
           | Inr qs \<Rightarrow> Inr (q # qs)))"

definition Re_seq_f64 :: "real \<Rightarrow> real \<Rightarrow> real \<Rightarrow> real \<Rightarrow> real list \<Rightarrow> py_error + real list" where
  "Re_seq_f64 beta gamma mu N S =
     (case py_truediv_f64 beta (f64 (gamma + mu)) of
        Inl e \<Rightarrow> Inl e
      | Inr c \<Rightarrow>
          (case np_truediv_array_f64 S N of
             Inl e \<Rightarrow> Inl e
           | Inr f \<Rightarrow> Inr (map (\<lambda>x. f64 (c * x)) f)))"

text \<open>
  \<open>round(x, 2)\<close> on a numpy float64 is numpy's rounding: scale by \<open>10 ** 2\<close>, round to
  the nearest integer with ties to the even one, scale back; each of the three steps is
  a double operation.
\<close>

definition np_round :: "real \<Rightarrow> nat \<Rightarrow> real" where
  "np_round x decimals =
     f64 (of_int (round_half_even (f64 (x * 10 ^ decimals))) / 10 ^ decimals)"

text \<open>
  The value written on line 152: \<open>round((1 - S[-1]/N)*100, 2)\<close>. The two-decimal
  rounding makes the roundings of the operations before it visible (at a tie), so the
  line is modelled in double arithmetic: the division, the subtraction and the
  multiplication each round.
\<close>

definition attack_rate_pct :: "real list \<Rightarrow> real \<Rightarrow> py_error + real" where
  "attack_rate_pct S N =
     (case getitem_last S of
        Inl e \<Rightarrow> Inl e
      | Inr s \<Rightarrow>
          (case np_truediv_f64 s N of
             Inl e \<Rightarrow> Inl e
           | Inr q \<Rightarrow> Inr (np_round (f64 (f64 (1 - q) * 100)) 2)))"

section \<open>The whole computation\<close>

record outputs =
  t_out :: "real list"
  S_out :: "real list"
  I_out :: "real list"
  R_out :: "real list"
  D_out :: "real list"
  max_infected :: real
  day_of_peak :: real
  Re_out :: "real list"
  attack_rate :: real

definition simulate ::
  "solver \<Rightarrow> int \<Rightarrow> real \<Rightarrow> real \<Rightarrow> real \<Rightarrow> int \<Rightarrow> int \<Rightarrow> py_error + outputs" where
  "simulate odeint N beta gamma mu days I0 =
     (case integrate odeint N beta gamma mu days I0 of
        Inl e \<Rightarrow> Inl e
      | Inr (t, sol) \<Rightarrow>
          (let S = column_S sol; I = column_I sol; R = column_R sol; D = column_D sol
           in case peak t I of
                Inl e \<Rightarrow> Inl e
              | Inr (mx, day) \<Rightarrow>
                  (case Re_seq beta gamma mu (of_int N) S of
                     Inl e \<Rightarrow> Inl e
                   | Inr re \<Rightarrow>
                       (case attack_rate_pct S (of_int N) of
                          Inl e \<Rightarrow> Inl e
                        | Inr ar \<Rightarrow>
                            Inr \<lparr>t_out = t, S_out = S, I_out = I, R_out = R, D_out = D,
                                 max_infected = mx, day_of_peak = day,
                                 Re_out = re, attack_rate = ar\<rparr>))))"

section \<open>A reference solver and exact solutions\<close>

text \<open>
  The explicit Euler scheme on the given grid. It is not part of the script: it stands
  for the library solver where a statement about the whole computation is evaluated at
  a concrete input. No theorem below depends on the library solver being this scheme.
\<close>

fun euler_steps :: "rhs \<Rightarrow> state \<Rightarrow> real \<Rightarrow> real list \<Rightarrow> py_error + state list" where
  "euler_steps f y s [] = Inr [y]"
| "euler_steps f y s (s' # ts) =
     (case f y s of
        Inl e \<Rightarrow> Inl e
      | Inr (dS, dI, dR, dD) \<Rightarrow>
          (case y of (S, I, R, D) \<Rightarrow>
             (let h = s' - s
              in case euler_steps f (S + h * dS, I + h * dI, R + h * dR, D + h * dD) s' ts of
                   Inl e \<Rightarrow> Inl e
                 | Inr rest \<Rightarrow> Inr (y # rest))))"

definition euler_odeint :: solver where
  "euler_odeint f y0 t = (case t of [] \<Rightarrow> Inl ValueError | s # ts \<Rightarrow> euler_steps f y0 s ts)"

text \<open>Every step of a grid that starts at \<open>s\<close> is non-negative and at most \<open>hmax\<close>.\<close>

fun steps_within :: "real \<Rightarrow> real \<Rightarrow> real list \<Rightarrow> bool" where
  "steps_within hmax s [] = True"
| "steps_within hmax s (s' # ts) = (0 \<le> s' - s \<and> s' - s \<le> hmax \<and> steps_within hmax s' ts)"

text \<open>A state of non-negative compartments that sum to the population.\<close>

definition compartments :: "real \<Rightarrow> state \<Rightarrow> bool" where
  "compartments N y \<longleftrightarrow>
     (case y of (S, I, R, D) \<Rightarrow> 0 \<le> S \<and> 0 \<le> I \<and> 0 \<le> R \<and> 0 \<le> D \<and> S + I + R + D = N)"

text \<open>
  The continuous form of the model: four functions of time whose derivatives on
  \<open>[0, T]\<close> are the values \<open>SIR_model\<close> returns along them.
\<close>

definition exact_solution ::
  "real \<Rightarrow> real \<Rightarrow> real \<Rightarrow> real \<Rightarrow> real \<Rightarrow>
   (real \<Rightarrow> real) \<Rightarrow> (real \<Rightarrow> real) \<Rightarrow> (real \<Rightarrow> real) \<Rightarrow> (real \<Rightarrow> real) \<Rightarrow> bool" where
  "exact_solution N beta gamma mu T S I R D \<longleftrightarrow>
     (\<forall>s. 0 \<le> s \<and> s \<le> T \<longrightarrow>
        (\<exists>dS dI dR dD.
           SIR_model (S s, I s, R s, D s) s N beta gamma mu = Inr (dS, dI, dR, dD)
           \<and> (S has_real_derivative dS) (at s)
           \<and> (I has_real_derivative dI) (at s)
           \<and> (R has_real_derivative dR) (at s)
           \<and> (D has_real_derivative dD) (at s)))"

section \<open>Properties of the evaluator\<close>

text \<open>
  C1. For every state (S, I, R, D), every time t and all parameters with N \<noteq> 0,
  \<open>SIR_model\<close> returns exactly (-\<beta>SI/N, \<beta>SI/N - \<gamma>I - \<mu>I, \<gamma>I, \<mu>I); the result is the
  same at every other time t' (the model is autonomous). The function is a pure value:
  it has no state to change.
\<close>

theorem SIR_model_derivative:
  assumes "N \<noteq> 0"
  shows "SIR_model (S, I, R, D) t N beta gamma mu =
           Inr (- (beta * S * I / N),
                beta * S * I / N - gamma * I - mu * I,
                gamma * I,
                mu * I)
         \<and> SIR_model (S, I, R, D) t' N beta gamma mu =
             SIR_model (S, I, R, D) t N beta gamma mu"
  using assms by (simp add: SIR_model_def np_truediv_def)

theorem SIR_model_derivative_witness:
  "(1000::real) \<noteq> 0
   \<and> SIR_model (999, 1, 0, 0) 0 1000 (3/10) (5/100) (2/100) =
       Inr (- (2997/10000), 2297/10000, 5/100, 2/100)
   \<and> SIR_model (999, 1, 0, 0) 7 1000 (3/10) (5/100) (2/100) =
       SIR_model (999, 1, 0, 0) 0 1000 (3/10) (5/100) (2/100)"
  using SIR_model_derivative [of 1000 999 1 0 0 0 "3/10" "5/100" "2/100" 7]
  by simp

section \<open>Auxiliary facts: the evaluator and exact solutions\<close>

lemma SIR_model_Inr:
  "N \<noteq> 0 \<Longrightarrow> SIR_model (S, I, R, D) t N beta gamma mu =
     Inr (- beta * S * I / N, beta * S * I / N - gamma * I - mu * I, gamma * I, mu * I)"
  by (simp add: SIR_model_def np_truediv_def)

lemma SIR_model_Inl:
  "SIR_model y t 0 beta gamma mu = Inl NonFiniteResult"
  by (simp add: SIR_model_def np_truediv_def split: prod.splits)

lemma SIR_model_total:
  assumes "SIR_model y t N beta gamma mu = Inr d"
  shows "total d = 0"
proof -
  obtain S I R D where y: "y = (S, I, R, D)" by (cases y) auto
  have N: "N \<noteq> 0" using assms by (auto simp: SIR_model_Inl)
  have "d = (- beta * S * I / N, beta * S * I / N - gamma * I - mu * I, gamma * I, mu * I)"
    using assms SIR_model_Inr [OF N, of S I R D t beta gamma mu] by (simp add: y)
  then show ?thesis by (simp add: total_def)
qed

lemma initial_state_total: "total (initial_state N I0) = of_int N"
  by (simp add: initial_state_def total_def)


lemma exact_solutionD:
  assumes "exact_solution N beta gamma mu T S I R D" and "0 \<le> s" and "s \<le> T"
  shows "N \<noteq> 0"
    and "(S has_real_derivative (- beta * S s * I s / N)) (at s)"
    and "(I has_real_derivative (beta * S s * I s / N - gamma * I s - mu * I s)) (at s)"
    and "(R has_real_derivative (gamma * I s)) (at s)"
    and "(D has_real_derivative (mu * I s)) (at s)"
proof -
  from assms obtain dS dI dR dD where
    m: "SIR_model (S s, I s, R s, D s) s N beta gamma mu = Inr (dS, dI, dR, dD)"
    and d: "(S has_real_derivative dS) (at s)" "(I has_real_derivative dI) (at s)"
      "(R has_real_derivative dR) (at s)" "(D has_real_derivative dD) (at s)"
    unfolding exact_solution_def by blast
  show N: "N \<noteq> 0" using m by (auto simp: SIR_model_Inl)
  have "(dS, dI, dR, dD) =
      (- beta * S s * I s / N, beta * S s * I s / N - gamma * I s - mu * I s,
       gamma * I s, mu * I s)"
    using m SIR_model_Inr [OF N, of "S s" "I s" "R s" "D s" s beta gamma mu] by simp
  with d show "(S has_real_derivative (- beta * S s * I s / N)) (at s)"
    and "(I has_real_derivative (beta * S s * I s / N - gamma * I s - mu * I s)) (at s)"
    and "(R has_real_derivative (gamma * I s)) (at s)"
    and "(D has_real_derivative (mu * I s)) (at s)"
    by simp_all
qed

lemma exact_solution_conserved:
  assumes sol: "exact_solution N beta gamma mu T S I R D" and "0 \<le> s" and "s \<le> T"
  shows "S s + I s + R s + D s = S 0 + I 0 + R 0 + D 0"
proof -
  let ?f = "\<lambda>x. S x + I x + R x + D x"
  have der: "(?f has_real_derivative 0) (at x)" if "0 \<le> x" and "x \<le> s" for x
  proof -
    from that assms have x: "0 \<le> x" "x \<le> T" by auto
    have "(?f has_real_derivative
            (- beta * S x * I x / N + (beta * S x * I x / N - gamma * I x - mu * I x)
              + gamma * I x + mu * I x)) (at x)"
      by (intro DERIV_add exact_solutionD [OF sol x])
    then show ?thesis by simp
  qed
  have "?f 0 \<le> ?f s"
    by (rule DERIV_nonneg_imp_nondecreasing [OF \<open>0 \<le> s\<close>]) (use der in force)
  moreover have "?f s \<le> ?f 0"
    by (rule DERIV_nonpos_imp_nonincreasing [OF \<open>0 \<le> s\<close>]) (use der in force)
  ultimately show ?thesis by simp
qed

lemma exact_solution_monotone:
  assumes sol: "exact_solution N beta gamma mu T S I R D"
    and par: "0 < N" "0 \<le> beta" "0 \<le> gamma" "0 \<le> mu"
    and pos: "\<And>s. 0 \<le> s \<Longrightarrow> s \<le> T \<Longrightarrow> 0 \<le> S s \<and> 0 \<le> I s"
    and ab: "0 \<le> a" "a \<le> b" "b \<le> T"
  shows "D a \<le> D b" and "R a \<le> R b" and "S b \<le> S a"
proof -
  have rng: "0 \<le> x \<and> x \<le> T" if "a \<le> x" "x \<le> b" for x
    using that ab by simp
  show "D a \<le> D b"
  proof (rule DERIV_nonneg_imp_nondecreasing [OF \<open>a \<le> b\<close>])
    fix x assume "a \<le> x" "x \<le> b"
    then have x: "0 \<le> x" "x \<le> T" using rng by auto
    have "0 \<le> mu * I x" using par pos [OF x] by simp
    with exact_solutionD(5) [OF sol x]
    show "\<exists>y. (D has_real_derivative y) (at x) \<and> 0 \<le> y" by blast
  qed
  show "R a \<le> R b"
  proof (rule DERIV_nonneg_imp_nondecreasing [OF \<open>a \<le> b\<close>])
    fix x assume "a \<le> x" "x \<le> b"
    then have x: "0 \<le> x" "x \<le> T" using rng by auto
    have "0 \<le> gamma * I x" using par pos [OF x] by simp
    with exact_solutionD(4) [OF sol x]
    show "\<exists>y. (R has_real_derivative y) (at x) \<and> 0 \<le> y" by blast
  qed
  show "S b \<le> S a"
  proof (rule DERIV_nonpos_imp_nonincreasing [OF \<open>a \<le> b\<close>])
    fix x assume "a \<le> x" "x \<le> b"
    then have x: "0 \<le> x" "x \<le> T" using rng by auto
    have "0 \<le> beta * S x * I x / N" using par pos [OF x] by simp
    then have "- beta * S x * I x / N \<le> 0" by simp
    with exact_solutionD(2) [OF sol x]
    show "\<exists>y. (S has_real_derivative y) (at x) \<and> y \<le> 0" by blast
  qed
qed

text \<open>A closed-form solution: no transmission, removal at total rate 1.\<close>

lemma decay_solution:
  "exact_solution 1000 0 (9 / 10) (1 / 10) T
     (\<lambda>s. 999) (\<lambda>s. exp (- s)) (\<lambda>s. 9 / 10 * (1 - exp (- s))) (\<lambda>s. 1 / 10 * (1 - exp (- s)))"
  unfolding exact_solution_def
proof (intro allI impI)
  fix s :: real
  have "SIR_model (999, exp (- s), 9 / 10 * (1 - exp (- s)), 1 / 10 * (1 - exp (- s))) s
          1000 0 (9 / 10) (1 / 10)
        = Inr (0, - exp (- s), 9 / 10 * exp (- s), 1 / 10 * exp (- s))"
    by (simp add: SIR_model_def np_truediv_def)
  moreover have "((\<lambda>s. 999 :: real) has_real_derivative 0) (at s)" by simp
  moreover have "((\<lambda>s. exp (- s)) has_real_derivative - exp (- s)) (at s)"
    by (auto intro!: derivative_eq_intros)
  moreover have "((\<lambda>s. 9 / 10 * (1 - exp (- s))) has_real_derivative 9 / 10 * exp (- s)) (at s)"
    by (auto intro!: derivative_eq_intros)
  moreover have "((\<lambda>s. 1 / 10 * (1 - exp (- s))) has_real_derivative 1 / 10 * exp (- s)) (at s)"
    by (auto intro!: derivative_eq_intros)
  ultimately show "\<exists>dS dI dR dD.
      SIR_model (999, exp (- s), 9 / 10 * (1 - exp (- s)), 1 / 10 * (1 - exp (- s))) s
        1000 0 (9 / 10) (1 / 10) = Inr (dS, dI, dR, dD)
      \<and> ((\<lambda>s. 999) has_real_derivative dS) (at s)
      \<and> ((\<lambda>s. exp (- s)) has_real_derivative dI) (at s)
      \<and> ((\<lambda>s. 9 / 10 * (1 - exp (- s))) has_real_derivative dR) (at s)
      \<and> ((\<lambda>s. 1 / 10 * (1 - exp (- s))) has_real_derivative dD) (at s)"
    by blast
qed

section \<open>Auxiliary facts: the metrics\<close>

lemma np_truediv_array_Inr:
  "b \<noteq> 0 \<Longrightarrow> np_truediv_array xs b = Inr (map (\<lambda>x. x / b) xs)"
  by (induction xs) (simp_all add: np_truediv_def)

lemma Re_seq_Inr:
  assumes "gamma + mu \<noteq> 0" and "N \<noteq> 0"
  shows "Re_seq beta gamma mu N S = Inr (map (\<lambda>s. beta / (gamma + mu) * (s / N)) S)"
  using assms by (simp add: Re_seq_def py_truediv_def np_truediv_array_Inr)

lemma Re_seq_Inl:
  "gamma + mu = 0 \<Longrightarrow> Re_seq beta gamma mu N S = Inl ZeroDivisionError"
  by (simp add: Re_seq_def py_truediv_def)

lemma amax_scan_Max: "amax_scan m xs = Max (set (m # xs))"
proof (induction xs arbitrary: m)
  case Nil
  show ?case by simp
next
  case (Cons x xs)
  have "Max (insert m (insert x (set xs))) = max m (Max (insert x (set xs)))"
    by (rule Max_insert) simp_all
  also have "Max (insert x (set xs)) = (if xs = [] then x else max x (Max (set xs)))"
    by simp
  finally have a: "Max (set (m # x # xs)) = (if xs = [] then max m x else max m (max x (Max (set xs))))"
    by simp
  have b: "Max (set ((if m < x then x else m) # xs)) =
           (if xs = [] then max m x else max (max m x) (Max (set xs)))"
    by (auto simp: max_def)
  show ?case using Cons.IH [of "if m < x then x else m"] a b
    by (simp add: max.assoc del: set_simps)
qed

lemma amax_scan_ge: "m \<le> amax_scan m xs"
  by (simp add: amax_scan_Max)

lemma argmax_scan_spec:
  "(argmax_scan best m i xs = best \<and> amax_scan m xs = m \<and> (\<forall>x \<in> set xs. x \<le> m))
   \<or> (i \<le> argmax_scan best m i xs \<and> argmax_scan best m i xs < i + length xs
      \<and> xs ! (argmax_scan best m i xs - i) = amax_scan m xs
      \<and> m < amax_scan m xs
      \<and> (\<forall>j < argmax_scan best m i xs - i. xs ! j < amax_scan m xs))"
proof (induction xs arbitrary: best m i)
  case Nil
  show ?case by simp
next
  case (Cons x xs)
  show ?case
  proof (cases "m < x")
    case True
    let ?k = "argmax_scan i x (Suc i) xs"
    have eq: "argmax_scan best m i (x # xs) = ?k" "amax_scan m (x # xs) = amax_scan x xs"
      using True by simp_all
    from Cons.IH [of i x "Suc i"] show ?thesis
    proof
      assume h: "?k = i \<and> amax_scan x xs = x \<and> (\<forall>y \<in> set xs. y \<le> x)"
      then show ?thesis unfolding eq using True by simp
    next
      assume h: "Suc i \<le> ?k \<and> ?k < Suc i + length xs
        \<and> xs ! (?k - Suc i) = amax_scan x xs \<and> x < amax_scan x xs
        \<and> (\<forall>j < ?k - Suc i. xs ! j < amax_scan x xs)"
      then have k: "?k - i = Suc (?k - Suc i)" by arith
      have "\<forall>j < ?k - i. (x # xs) ! j < amax_scan x xs"
      proof (intro allI impI)
        fix j assume "j < ?k - i"
        then show "(x # xs) ! j < amax_scan x xs"
          using h k by (cases j) auto
      qed
      moreover have "m < amax_scan x xs" using True h by linarith
      ultimately show ?thesis unfolding eq using h k by simp
    qed
  next
    case False
    let ?k = "argmax_scan best m (Suc i) xs"
    have eq: "argmax_scan best m i (x # xs) = ?k" "amax_scan m (x # xs) = amax_scan m xs"
      using False by simp_all
    from Cons.IH [of best m "Suc i"] show ?thesis
    proof
      assume h: "?k = best \<and> amax_scan m xs = m \<and> (\<forall>y \<in> set xs. y \<le> m)"
      then show ?thesis unfolding eq using False by simp
    next
      assume h: "Suc i \<le> ?k \<and> ?k < Suc i + length xs
        \<and> xs ! (?k - Suc i) = amax_scan m xs \<and> m < amax_scan m xs
        \<and> (\<forall>j < ?k - Suc i. xs ! j < amax_scan m xs)"
      then have k: "?k - i = Suc (?k - Suc i)" by arith
      have "\<forall>j < ?k - i. (x # xs) ! j < amax_scan m xs"
      proof (intro allI impI)
        fix j assume "j < ?k - i"
        then show "(x # xs) ! j < amax_scan m xs"
          using h k False by (cases j) auto
      qed
      then show ?thesis unfolding eq using h k by simp
    qed
  qed
qed

lemma np_max_argmax:
  assumes "a \<noteq> []"
  shows "\<exists>k. np_max a = Inr (Max (set a)) \<and> np_argmax a = Inr k \<and> k < length a
             \<and> a ! k = Max (set a) \<and> (\<forall>j < k. a ! j < Max (set a))"
proof -
  from assms obtain x xs where a: "a = x # xs" by (cases a) auto
  let ?k = "argmax_scan 0 x 1 xs"
  have mx: "np_max a = Inr (Max (set a))"
    by (simp add: a np_max_def amax_scan_Max del: set_simps)
  have am: "np_argmax a = Inr ?k" by (simp add: a np_argmax_def)
  have M: "Max (set a) = amax_scan x xs" by (simp add: a amax_scan_Max del: set_simps)
  from argmax_scan_spec [of 0 x 1 xs]
  have "?k < length a \<and> a ! ?k = amax_scan x xs \<and> (\<forall>j < ?k. a ! j < amax_scan x xs)"
  proof
    assume "?k = 0 \<and> amax_scan x xs = x \<and> (\<forall>y \<in> set xs. y \<le> x)"
    then show ?thesis by (simp add: a)
  next
    assume h: "1 \<le> ?k \<and> ?k < 1 + length xs \<and> xs ! (?k - 1) = amax_scan x xs
       \<and> x < amax_scan x xs \<and> (\<forall>j < ?k - 1. xs ! j < amax_scan x xs)"
    then have k: "?k = Suc (?k - 1)" by arith
    have "\<forall>j < ?k. a ! j < amax_scan x xs"
    proof (intro allI impI)
      fix j assume "j < ?k"
      then show "a ! j < amax_scan x xs"
        using h k by (cases j) (auto simp: a)
    qed
    moreover have "a ! ?k = amax_scan x xs"
      using h k by (metis a nth_Cons_Suc)
    ultimately show ?thesis using h by (simp add: a)
  qed
  with mx am M show ?thesis by auto
qed

lemma peak_Inr:
  assumes "I \<noteq> []" and "length I \<le> length t"
  shows "\<exists>k. peak t I = Inr (Max (set I), t ! k) \<and> k < length I
             \<and> I ! k = Max (set I) \<and> (\<forall>j < k. I ! j < Max (set I))"
proof -
  from np_max_argmax [OF assms(1)] obtain k where
    k: "np_max I = Inr (Max (set I))" "np_argmax I = Inr k" "k < length I"
       "I ! k = Max (set I)" "\<forall>j < k. I ! j < Max (set I)"
    by blast
  have "peak t I = Inr (Max (set I), t ! k)"
    using k assms(2) by (simp add: peak_def getitem_def)
  with k show ?thesis by blast
qed

section \<open>Auxiliary facts: the time grid\<close>

lemma linspace_Inr:
  assumes "2 \<le> num"
  shows "linspace start stop num =
           Inr (map (\<lambda>i. start + real i * ((stop - start) / of_int (num - 1))) [0..<nat num])"
proof -
  let ?n = "nat num"
  let ?step = "(stop - start) / of_int (num - 1)"
  let ?y = "map (\<lambda>i. real i * ?step + start) [0..<?n]"
  have n: "real (?n - 1) = of_int (num - 1)" "0 < ?n" using assms by auto
  have "?y[?n - 1 := stop] = map (\<lambda>i. start + real i * ?step) [0..<?n]"
  proof (rule nth_equalityI)
    show "length (?y[?n - 1 := stop]) = length (map (\<lambda>i. start + real i * ?step) [0..<?n])"
      by simp
  next
    fix i assume "i < length (?y[?n - 1 := stop])"
    then have i: "i < ?n" by simp
    show "?y[?n - 1 := stop] ! i = map (\<lambda>i. start + real i * ?step) [0..<?n] ! i"
    proof (cases "i = ?n - 1")
      case True
      have "start + real (?n - 1) * ?step = stop"
        using assms by (simp add: n(1))
      then show ?thesis using True i by simp
    next
      case False
      then show ?thesis using i by (simp add: add.commute)
    qed
  qed
  then show ?thesis using assms by (simp add: linspace_def Let_def)
qed

lemma time_grid_Inr:
  assumes "1 \<le> days"
  shows "time_grid days =
           Inr (map (\<lambda>i. real i * (of_int days / of_int (days * 10 - 1))) [0..<nat (days * 10)])"
proof -
  have "2 \<le> days * 10" using assms by simp
  from linspace_Inr [OF this, of 0 "of_int days"] show ?thesis
    by (simp add: time_grid_def)
qed

lemma time_grid_zero: "time_grid 0 = Inr []"
  by (simp add: time_grid_def linspace_def)

lemma time_grid_negative: "days < 0 \<Longrightarrow> time_grid days = Inl ValueError"
  by (simp add: time_grid_def linspace_def mult_less_0_iff)

lemma time_grid_total: "0 \<le> days \<Longrightarrow> \<exists>t. time_grid days = Inr t"
  by (cases "days = 0") (auto simp: time_grid_zero time_grid_Inr)

lemma time_grid_nth:
  assumes "1 \<le> days" and "time_grid days = Inr t" and "i < length t"
  shows "t ! i = real i * (of_int days / of_int (days * 10 - 1))"
  using assms by (auto simp: time_grid_Inr)

lemma time_grid_length:
  assumes "1 \<le> days" and "time_grid days = Inr t"
  shows "length t = nat (days * 10)"
  using assms by (auto simp: time_grid_Inr)

lemma time_grid_step_pos: "1 \<le> days \<Longrightarrow> 0 < real_of_int days / of_int (days * 10 - 1)"
  by simp

lemma time_grid_hd_last:
  assumes "1 \<le> days" and "time_grid days = Inr t"
  shows "t \<noteq> []" and "hd t = 0" and "last t = of_int days"
proof -
  have len: "length t = nat (days * 10)" by (rule time_grid_length [OF assms])
  then have pos: "0 < length t" using assms(1) by simp
  then show ne: "t \<noteq> []" by auto
  have "hd t = t ! 0" using ne by (simp add: hd_conv_nth)
  also have "\<dots> = 0" using time_grid_nth [OF assms pos] by simp
  finally show "hd t = 0" .
  have "last t = t ! (length t - 1)" using ne by (simp add: last_conv_nth)
  also have "\<dots> = real (length t - 1) * (of_int days / of_int (days * 10 - 1))"
    using pos by (intro time_grid_nth [OF assms]) simp
  also have "real (length t - 1) = of_int (days * 10 - 1)"
    using assms(1) by (simp add: len)
  also have "of_int (days * 10 - 1) * (real_of_int days / of_int (days * 10 - 1)) = of_int days"
    using assms(1) by simp
  finally show "last t = of_int days" .
qed

lemma time_grid_increasing:
  assumes "1 \<le> days" and "time_grid days = Inr t"
  shows "sorted_wrt (<) t"
proof -
  have "t ! i < t ! j" if "i < j" "j < length t" for i j
  proof -
    have "real i * (of_int days / of_int (days * 10 - 1))
          < real j * (of_int days / of_int (days * 10 - 1))"
      using that time_grid_step_pos [OF assms(1)] by (intro mult_strict_right_mono) simp_all
    then show ?thesis
      using that time_grid_nth [OF assms, of i] time_grid_nth [OF assms, of j] by simp
  qed
  then show ?thesis by (simp add: sorted_wrt_iff_nth_less)
qed

lemma time_grid_range:
  assumes "time_grid days = Inr t" and "s \<in> set t"
  shows "0 \<le> s \<and> s \<le> of_int days"
proof -
  have d: "1 \<le> days"
  proof (rule ccontr)
    assume "\<not> 1 \<le> days"
    then have "days < 0 \<or> days = 0" by arith
    then show False using assms by (auto simp: time_grid_negative time_grid_zero)
  qed
  from assms(2) obtain i where i: "i < length t" "s = t ! i"
    by (auto simp: in_set_conv_nth)
  have len: "length t = nat (days * 10)" by (rule time_grid_length [OF d assms(1)])
  have s: "s = real i * (of_int days / of_int (days * 10 - 1))"
    using time_grid_nth [OF d assms(1) i(1)] i(2) by simp
  have "0 \<le> s" using d by (simp add: s)
  moreover have "s \<le> of_int days"
  proof -
    have "real i \<le> of_int (days * 10 - 1)" using i(1) d by (simp add: len)
    then have "real i * (of_int days / of_int (days * 10 - 1))
               \<le> of_int (days * 10 - 1) * (real_of_int days / of_int (days * 10 - 1))"
      using d by (intro mult_right_mono) simp_all
    also have "\<dots> = of_int days" using d by simp
    finally show ?thesis by (simp add: s)
  qed
  ultimately show ?thesis by simp
qed

section \<open>Auxiliary facts: double-precision rounding\<close>




lemma two_powr_of_int: "(2::real) powr real_of_int k = 2 powi k"
  by (rule powr_real_of_int') simp_all


lemma floor_log2_unique:
  assumes "2 powi k \<le> \<bar>x\<bar>" and "\<bar>x\<bar> < 2 powi (k + 1)"
  shows "\<lfloor>log 2 \<bar>x\<bar>\<rfloor> = k"
proof -
  have "(0::real) < 2 powi k" by simp
  then have pos: "0 < \<bar>x\<bar>" using assms(1) by linarith
  have "(\<lfloor>log 2 \<bar>x\<bar>\<rfloor> = k) =
        ((2::real) powr real_of_int k \<le> \<bar>x\<bar> \<and> \<bar>x\<bar> < 2 powr real_of_int (k + 1))"
    by (rule floor_log_eq_powr_iff [OF pos]) simp
  then show ?thesis using assms by (simp only: two_powr_of_int simp_thms)
qed

lemma f64_eval:
  assumes "2 powi k \<le> \<bar>x\<bar>" and "\<bar>x\<bar> < 2 powi (k + 1)"
  shows "f64 x = of_int (round_half_even (x / 2 powi (k - 52))) * 2 powi (k - 52)"
proof -
  have "(0::real) < 2 powi k" by simp
  with assms(1) have "0 < \<bar>x\<bar>" by linarith
  then have "x \<noteq> 0" by simp
  then show ?thesis
    by (simp add: f64_def floor_log2_unique [OF assms] Let_def)
qed









section \<open>Auxiliary facts: the reference solver and the whole computation\<close>

lemma euler_steps_length:
  "euler_steps f y s ts = Inr sol \<Longrightarrow> length sol = Suc (length ts)"
proof (induction ts arbitrary: y s sol)
  case Nil
  then show ?case by auto
next
  case (Cons s' ts)
  then show ?case
    by (auto split: sum.splits prod.splits simp: Let_def)
qed

lemma euler_odeint_length:
  assumes "euler_odeint f y0 t = Inr sol"
  shows "length sol = length t"
proof (cases t)
  case Nil
  then show ?thesis using assms by (simp add: euler_odeint_def)
next
  case (Cons s ts)
  then have "euler_steps f y0 s ts = Inr sol" using assms by (simp add: euler_odeint_def)
  then show ?thesis using Cons by (simp add: euler_steps_length)
qed

lemma euler_steps_SIR_model:
  assumes "N \<noteq> 0"
  shows "\<exists>sol. euler_steps (\<lambda>y s. SIR_model y s N beta gamma mu) y s ts = Inr sol"
proof (induction ts arbitrary: y s)
  case Nil
  show ?case by simp
next
  case (Cons s' ts)
  obtain S I R D where y: "y = (S, I, R, D)" by (cases y) auto
  let ?y' = "(S + (s' - s) * (- beta * S * I / N),
              I + (s' - s) * (beta * S * I / N - gamma * I - mu * I),
              R + (s' - s) * (gamma * I),
              D + (s' - s) * (mu * I))"
  from Cons [of ?y' s'] obtain rest where
    "euler_steps (\<lambda>y s. SIR_model y s N beta gamma mu) ?y' s' ts = Inr rest" by blast
  then show ?case
    by (simp add: y SIR_model_Inr [OF assms] Let_def)
qed

lemma euler_odeint_SIR_model:
  assumes "N \<noteq> 0" and "t \<noteq> []"
  shows "\<exists>sol. euler_odeint (\<lambda>y s. SIR_model y s N beta gamma mu) y0 t = Inr sol"
  using assms euler_steps_SIR_model [OF assms(1)]
  by (cases t) (simp_all add: euler_odeint_def)

lemma column_lengths:
  "length (column_S sol) = length sol" "length (column_I sol) = length sol"
  "length (column_R sol) = length sol" "length (column_D sol) = length sol"
  by (simp_all add: column_S_def column_I_def column_R_def column_D_def)

lemma attack_rate_pct_Inr:
  assumes "S \<noteq> []" and "N \<noteq> 0"
  shows "attack_rate_pct S N =
           Inr (np_round (f64 (f64 (1 - f64 (last S / N)) * 100)) 2)"
  using assms by (cases S) (simp_all add: attack_rate_pct_def getitem_last_def np_truediv_f64_def)

lemma simulate_Inr:
  assumes int: "integrate odeint N beta gamma mu days I0 = Inr (t, sol)"
    and len: "length sol = length t" and ne: "t \<noteq> []"
    and par: "gamma + mu \<noteq> 0" "N \<noteq> 0"
  shows "\<exists>out. simulate odeint N beta gamma mu days I0 = Inr out
           \<and> t_out out = t
           \<and> S_out out = column_S sol \<and> I_out out = column_I sol
           \<and> R_out out = column_R sol \<and> D_out out = column_D sol
           \<and> Re_out out = map (\<lambda>s. beta / (gamma + mu) * (s / of_int N)) (column_S sol)
           \<and> attack_rate_pct (column_S sol) (of_int N) = Inr (attack_rate out)
           \<and> peak t (column_I sol) = Inr (max_infected out, day_of_peak out)"
proof -
  have I: "column_I sol \<noteq> []" "length (column_I sol) \<le> length t"
    using len ne by (auto simp: column_I_def)
  from peak_Inr [OF I] obtain p where p: "peak t (column_I sol) = Inr p" by blast
  have S: "column_S sol \<noteq> []" using len ne by (auto simp: column_S_def)
  have N: "real_of_int N \<noteq> 0" using par by simp
  show ?thesis
    using int p Re_seq_Inr [OF par(1) N] attack_rate_pct_Inr [OF S N]
    by (cases p) (simp add: simulate_def Let_def)
qed

lemma time_grid_one_day: "time_grid 1 = Inr [0, 1/9, 2/9, 1/3, 4/9, 5/9, 2/3, 7/9, 8/9, 1]"
  by (simp add: time_grid_Inr upt_rec [of _ "numeral _"] upt_rec [of _ "Suc _"] eval_nat_numeral)

lemma euler_steps_no_infected:
  assumes "N \<noteq> 0"
  shows "euler_steps (\<lambda>y s. SIR_model y s N beta gamma mu) (S, 0, R, D) s ts =
           Inr (replicate (Suc (length ts)) (S, 0, R, D))"
proof (induction ts arbitrary: s)
  case Nil
  show ?case by simp
next
  case (Cons s' ts)
  have "SIR_model (S, 0, R, D) s N beta gamma mu = Inr (0, 0, 0, 0)"
    using SIR_model_Inr [OF assms, of S 0 R D s beta gamma mu] by simp
  then show ?case using Cons [of s'] by simp
qed

section \<open>Auxiliary facts: invariants of the reference solver\<close>

lemma euler_steps_total:
  assumes z: "\<And>y s d. f y s = Inr d \<Longrightarrow> total d = 0"
    and run: "euler_steps f y s ts = Inr sol"
  shows "\<forall>z \<in> set sol. total z = total y"
  using run
proof (induction ts arbitrary: y s sol)
  case Nil
  then show ?case by auto
next
  case (Cons s' ts)
  obtain S I R D where y: "y = (S, I, R, D)" by (cases y) auto
  from Cons.prems obtain dS dI dR dD where d: "f y s = Inr (dS, dI, dR, dD)"
    by (cases "f y s") (auto split: prod.splits)
  let ?y' = "(S + (s' - s) * dS, I + (s' - s) * dI, R + (s' - s) * dR, D + (s' - s) * dD)"
  from Cons.prems d obtain rest where
    rest: "euler_steps f ?y' s' ts = Inr rest" and sol: "sol = y # rest"
    by (auto simp: y Let_def split: sum.splits)
  have "dS + dI + dR + dD = 0" using z [OF d] by (simp add: total_def)
  then have "(s' - s) * (dS + dI + dR + dD) = 0" by simp
  then have "total ?y' = total y" by (simp add: total_def y algebra_simps)
  with Cons.IH [OF rest] show ?case by (simp add: sol)
qed

lemma euler_odeint_total:
  assumes "\<And>y s d. f y s = Inr d \<Longrightarrow> total d = 0"
    and "euler_odeint f y0 t = Inr sol"
  shows "\<forall>z \<in> set sol. total z = total y0"
proof (cases t)
  case Nil
  then show ?thesis using assms(2) by (simp add: euler_odeint_def)
next
  case (Cons s ts)
  then have "euler_steps f y0 s ts = Inr sol" using assms(2) by (simp add: euler_odeint_def)
  then show ?thesis using assms(1) by (rule euler_steps_total [rotated])
qed

lemma euler_step_compartments:
  assumes N: "0 < N" and b: "0 \<le> beta" "beta \<le> 1"
    and g: "0 \<le> gamma" "0 \<le> mu" "gamma + mu \<le> 11 / 10"
    and h: "0 \<le> h" "h \<le> 1 / 9"
    and c: "compartments N (S, I, R, D)"
  shows "compartments N
           (S + h * (- beta * S * I / N),
            I + h * (beta * S * I / N - gamma * I - mu * I),
            R + h * (gamma * I),
            D + h * (mu * I))"
proof -
  from c have p: "0 \<le> S" "0 \<le> I" "0 \<le> R" "0 \<le> D" and sum: "S + I + R + D = N"
    by (simp_all add: compartments_def)
  have IN: "I / N \<le> 1" and SN: "0 \<le> S / N" using p sum N by simp_all
  have "0 \<le> I / N" using p N by simp
  have hb: "0 \<le> h * beta" "h * beta \<le> 1 / 9"
  proof -
    show "0 \<le> h * beta" using h b by simp
    have "h * beta \<le> (1 / 9) * 1" using h b by (intro mult_mono) simp_all
    then show "h * beta \<le> 1 / 9" by simp
  qed
  define a where "a = h * beta * (I / N)"
  define e where "e = h * beta * (S / N)"
  define k where "k = h * (gamma + mu)"
  have "a \<le> (1 / 9) * 1"
    unfolding a_def using hb IN \<open>0 \<le> I / N\<close> by (intro mult_mono) simp_all
  then have "0 \<le> 1 - a" by linarith
  with p(1) have "0 \<le> S * (1 - a)" by (rule mult_nonneg_nonneg)
  also have "S * (1 - a) = S + h * (- beta * S * I / N)"
    by (simp add: a_def algebra_simps)
  finally have S': "0 \<le> S + h * (- beta * S * I / N)" .
  have "k \<le> (1 / 9) * (11 / 10)"
    unfolding k_def using h g by (intro mult_mono) simp_all
  moreover have "0 \<le> e" unfolding e_def using hb(1) SN by (rule mult_nonneg_nonneg)
  ultimately have "0 \<le> 1 + e - k" by linarith
  with p(2) have "0 \<le> I * (1 + e - k)" by (rule mult_nonneg_nonneg)
  also have "I * (1 + e - k) = I + h * (beta * S * I / N - gamma * I - mu * I)"
    by (simp add: e_def k_def algebra_simps)
  finally have I': "0 \<le> I + h * (beta * S * I / N - gamma * I - mu * I)" .
  have R': "0 \<le> R + h * (gamma * I)" and D': "0 \<le> D + h * (mu * I)"
    using p h g by simp_all
  have "S + h * (- beta * S * I / N) + (I + h * (beta * S * I / N - gamma * I - mu * I))
        + (R + h * (gamma * I)) + (D + h * (mu * I)) = S + I + R + D"
    by (simp add: algebra_simps)
  with S' I' R' D' sum show ?thesis by (simp add: compartments_def)
qed

lemma euler_steps_compartments:
  assumes N: "0 < N" and b: "0 \<le> beta" "beta \<le> 1"
    and g: "0 \<le> gamma" "0 \<le> mu" "gamma + mu \<le> 11 / 10"
  shows "steps_within (1 / 9) s ts \<Longrightarrow> compartments N y \<Longrightarrow>
         \<exists>sol. euler_steps (\<lambda>y s. SIR_model y s N beta gamma mu) y s ts = Inr sol
               \<and> length sol = Suc (length ts)
               \<and> (\<forall>z \<in> set sol. compartments N z)"
proof (induction ts arbitrary: y s)
  case Nil
  then show ?case by simp
next
  case (Cons s' ts)
  obtain S I R D where y: "y = (S, I, R, D)" by (cases y) auto
  have N0: "N \<noteq> 0" using N by simp
  let ?h = "s' - s"
  let ?y' = "(S + ?h * (- beta * S * I / N),
              I + ?h * (beta * S * I / N - gamma * I - mu * I),
              R + ?h * (gamma * I),
              D + ?h * (mu * I))"
  from Cons.prems have h: "0 \<le> ?h" "?h \<le> 1 / 9" and rest: "steps_within (1 / 9) s' ts"
    by simp_all
  have c': "compartments N ?y'"
    using euler_step_compartments [OF N b g h] Cons.prems(2) by (simp add: y)
  from Cons.IH [OF rest c'] obtain sol where
    sol: "euler_steps (\<lambda>y s. SIR_model y s N beta gamma mu) ?y' s' ts = Inr sol"
      "length sol = Suc (length ts)" "\<forall>z \<in> set sol. compartments N z"
    by blast
  have "euler_steps (\<lambda>y s. SIR_model y s N beta gamma mu) y s (s' # ts) = Inr (y # sol)"
    using sol(1) by (simp add: y SIR_model_Inr [OF N0] Let_def)
  then show ?case using sol(2,3) Cons.prems(2) by simp
qed

lemma steps_within_map:
  assumes "0 \<le> c" and "c \<le> h"
  shows "steps_within h (real j * c) (map (\<lambda>i. real i * c) [Suc j..<Suc j + k])"
proof (induction k arbitrary: j)
  case 0
  show ?case by simp
next
  case (Suc k)
  have "[Suc j..<Suc j + Suc k] = Suc j # [Suc (Suc j)..<Suc (Suc j) + k]"
    by (simp add: upt_rec)
  moreover have "real (Suc j) * c - real j * c = c" by (simp add: algebra_simps)
  ultimately show ?case using Suc [of "Suc j"] assms by simp
qed

lemma time_grid_steps:
  assumes "1 \<le> days" and "time_grid days = Inr t"
  shows "\<exists>ts. t = 0 # ts \<and> steps_within (1 / 9) 0 ts"
proof -
  let ?c = "real_of_int days / of_int (days * 10 - 1)"
  let ?n = "nat (days * 10)"
  have t: "t = map (\<lambda>i. real i * ?c) [0..<?n]"
    using assms by (simp add: time_grid_Inr)
  have c: "0 \<le> ?c" "?c \<le> 1 / 9"
  proof -
    show "0 \<le> ?c" using assms(1) by simp
    have "0 < real_of_int (days * 10 - 1)" using assms(1) by simp
    moreover have "real_of_int days * 9 \<le> real_of_int (days * 10 - 1)"
      using assms(1) by simp
    ultimately show "?c \<le> 1 / 9" by (simp add: field_simps)
  qed
  obtain k where k: "?n = Suc 0 + k" using assms(1) by (cases ?n) auto
  have "[0..<?n] = 0 # [Suc 0..<Suc 0 + k]" by (simp add: k upt_rec)
  then have "t = 0 # map (\<lambda>i. real i * ?c) [Suc 0..<Suc 0 + k]"
    using t by simp
  moreover have "steps_within (1 / 9) (real 0 * ?c) (map (\<lambda>i. real i * ?c) [Suc 0..<Suc 0 + k])"
    by (rule steps_within_map [OF c])
  ultimately show ?thesis by simp
qed

lemma initial_state_compartments:
  assumes "1 \<le> I0" and "I0 \<le> N"
  shows "compartments (of_int N) (initial_state N I0)"
  using assms by (simp add: compartments_def initial_state_def)

lemma euler_run_any:
  assumes "N \<noteq> 0" and "1 \<le> days"
  shows "\<exists>t sol. time_grid days = Inr t
           \<and> integrate euler_odeint N beta gamma mu days I0 = Inr (t, sol)
           \<and> length sol = length t \<and> t \<noteq> []
           \<and> (\<forall>z \<in> set sol. total z = of_int N)"
proof -
  obtain t where t: "time_grid days = Inr t" using time_grid_total [of days] assms(2) by auto
  have ne: "t \<noteq> []" by (rule time_grid_hd_last(1) [OF assms(2) t])
  have N: "real_of_int N \<noteq> 0" using assms(1) by simp
  let ?f = "\<lambda>y s. SIR_model y s (of_int N) beta gamma mu"
  obtain sol where sol: "euler_odeint ?f (initial_state N I0) t = Inr sol"
    using euler_odeint_SIR_model [OF N ne] by blast
  have "\<forall>z \<in> set sol. total z = total (initial_state N I0)"
    by (rule euler_odeint_total [OF _ sol]) (rule SIR_model_total)
  then have tot: "\<forall>z \<in> set sol. total z = of_int N" by (simp add: initial_state_total)
  have "integrate euler_odeint N beta gamma mu days I0 = Inr (t, sol)"
    by (simp add: integrate_def t sol)
  with t ne tot euler_odeint_length [OF sol] show ?thesis by blast
qed

lemma euler_run_widget:
  assumes "widget_inputs N beta gamma mu days I0"
  shows "\<exists>t sol. time_grid days = Inr t
           \<and> integrate euler_odeint N beta gamma mu days I0 = Inr (t, sol)
           \<and> length sol = length t \<and> t \<noteq> []
           \<and> (\<forall>z \<in> set sol. compartments (of_int N) z)"
proof -
  from assms have w: "100 \<le> N" "0 \<le> beta" "beta \<le> 1" "0 \<le> gamma" "gamma \<le> 1"
    "0 \<le> mu" "mu \<le> 1 / 10" "1 \<le> days" "1 \<le> I0" "I0 \<le> N"
    by (simp_all add: widget_inputs_def)
  obtain t where t: "time_grid days = Inr t" using time_grid_total [of days] w(8) by auto
  from time_grid_steps [OF w(8) t] obtain ts where
    ts: "t = 0 # ts" "steps_within (1 / 9) 0 ts" by blast
  have N: "0 < real_of_int N" using w(1) by simp
  have gm: "gamma + mu \<le> 11 / 10" using w by simp
  from euler_steps_compartments [OF N w(2,3) w(4) w(6) gm ts(2)
      initial_state_compartments [OF w(9,10)]]
  obtain sol where
    sol: "euler_steps (\<lambda>y s. SIR_model y s (of_int N) beta gamma mu) (initial_state N I0) 0 ts
          = Inr sol"
      "length sol = Suc (length ts)" "\<forall>z \<in> set sol. compartments (of_int N) z"
    by blast
  have "integrate euler_odeint N beta gamma mu days I0 = Inr (t, sol)"
    using sol(1) by (simp add: integrate_def t euler_odeint_def ts(1) del: euler_steps.simps)
  with t sol(2,3) ts(1) show ?thesis by auto
qed

section \<open>Auxiliary facts: the attack rate in double arithmetic\<close>




lemma integrate_InrD:
  assumes "integrate odeint N beta gamma mu days I0 = Inr (t, sol)"
  shows "time_grid days = Inr t"
    and "odeint (\<lambda>y s. SIR_model y s (of_int N) beta gamma mu) (initial_state N I0) t = Inr sol"
  using assms by (auto simp: integrate_def split: sum.splits)

lemma simulate_InrD:
  assumes "simulate odeint N beta gamma mu days I0 = Inr out"
  shows "\<exists>t sol. integrate odeint N beta gamma mu days I0 = Inr (t, sol)
           \<and> t_out out = t
           \<and> S_out out = column_S sol \<and> I_out out = column_I sol
           \<and> R_out out = column_R sol \<and> D_out out = column_D sol
           \<and> Re_seq beta gamma mu (of_int N) (column_S sol) = Inr (Re_out out)
           \<and> attack_rate_pct (column_S sol) (of_int N) = Inr (attack_rate out)"
  using assms by (auto simp: simulate_def Let_def split: sum.splits prod.splits)

lemma simulate_zero_removal:
  assumes int: "integrate odeint N beta gamma mu days I0 = Inr (t, sol)"
    and len: "length sol = length t" and ne: "t \<noteq> []"
    and z: "gamma + mu = 0"
  shows "simulate odeint N beta gamma mu days I0 = Inl ZeroDivisionError"
proof -
  have I: "column_I sol \<noteq> []" "length (column_I sol) \<le> length t"
    using len ne by (auto simp: column_I_def)
  from peak_Inr [OF I] obtain p where p: "peak t (column_I sol) = Inr p" by blast
  show ?thesis
    using int p Re_seq_Inl [OF z] by (cases p) (simp add: simulate_def Let_def)
qed

lemma columns_total:
  assumes "i < length sol"
  shows "column_S sol ! i + column_I sol ! i + column_R sol ! i + column_D sol ! i
         = total (sol ! i)"
  using assms
  by (simp add: column_S_def column_I_def column_R_def column_D_def total_def split: prod.splits)

lemma euler_integrate_total:
  assumes "integrate euler_odeint N beta gamma mu days I0 = Inr (t, sol)"
  shows "length sol = length t"
    and "\<forall>i < length t. column_S sol ! i + column_I sol ! i + column_R sol ! i + column_D sol ! i
           = of_int N"
proof -
  note sol = integrate_InrD(2) [OF assms]
  show len: "length sol = length t" by (rule euler_odeint_length [OF sol])
  have "\<forall>z \<in> set sol. total z = total (initial_state N I0)"
    by (rule euler_odeint_total [OF _ sol]) (rule SIR_model_total)
  then have "\<forall>i < length sol. total (sol ! i) = of_int N"
    by (simp add: initial_state_total)
  then show "\<forall>i < length t. column_S sol ! i + column_I sol ! i + column_R sol ! i
      + column_D sol ! i = of_int N"
    by (simp add: columns_total len)
qed


section \<open>Conservation\<close>

text \<open>
  C2. The initial state (N - I0, I0, 0, 0) sums to N. \<open>SIR_model\<close> returns a derivative
  whenever N \<noteq> 0, and every derivative it returns sums to exactly zero. Hence the
  trajectory the integrator computes keeps S + I + R + D = N at every point of the time
  grid: with the reference solver (and N \<noteq> 0, days \<ge> 1) the integration succeeds with
  one row per grid point, and in every row the four columns sum to N, also in the
  sequences the whole computation returns. The same holds along every exact solution of
  the model that starts in the initial state. (All sums are sums of reals; the library
  solver and double arithmetic add their tolerance.)
\<close>

theorem SIRD_conservation:
  "total (initial_state N I0) = of_int N
   \<and> (Nr \<noteq> 0 \<longrightarrow> (\<exists>d. SIR_model y s Nr beta gamma mu = Inr d))
   \<and> (\<forall>d. SIR_model y s Nr beta gamma mu = Inr d \<longrightarrow> total d = 0)
   \<and> (N \<noteq> 0 \<and> 1 \<le> days \<longrightarrow>
        (\<exists>t sol. time_grid days = Inr t
           \<and> integrate euler_odeint N beta gamma mu days I0 = Inr (t, sol)
           \<and> length sol = length t
           \<and> (\<forall>i < length t.
                 column_S sol ! i + column_I sol ! i + column_R sol ! i + column_D sol ! i
                 = of_int N)))
   \<and> (\<forall>out. simulate euler_odeint N beta gamma mu days I0 = Inr out \<longrightarrow>
          (\<forall>i < length (t_out out).
             S_out out ! i + I_out out ! i + R_out out ! i + D_out out ! i = of_int N))
   \<and> (exact_solution (of_int N) beta gamma mu (of_int days) S I R D
        \<and> (S 0, I 0, R 0, D 0) = initial_state N I0
        \<and> time_grid days = Inr t
      \<longrightarrow> (\<forall>x \<in> set t. total (S x, I x, R x, D x) = of_int N))"
proof (intro conjI impI allI ballI)
  show "total (initial_state N I0) = of_int N" by (rule initial_state_total)
next
  assume "Nr \<noteq> 0"
  then show "\<exists>d. SIR_model y s Nr beta gamma mu = Inr d"
    by (cases y) (simp add: SIR_model_Inr)
next
  fix d assume "SIR_model y s Nr beta gamma mu = Inr d"
  then show "total d = 0" by (rule SIR_model_total)
next
  assume "N \<noteq> 0 \<and> 1 \<le> days"
  then have "N \<noteq> 0" and "1 \<le> days" by simp_all
  from euler_run_any [OF this, of beta gamma mu I0] obtain g sol where
    g: "time_grid days = Inr g"
    and run: "integrate euler_odeint N beta gamma mu days I0 = Inr (g, sol)"
    by blast
  from euler_integrate_total [OF run] g run
  show "\<exists>t sol. time_grid days = Inr t
           \<and> integrate euler_odeint N beta gamma mu days I0 = Inr (t, sol)
           \<and> length sol = length t
           \<and> (\<forall>i < length t.
                 column_S sol ! i + column_I sol ! i + column_R sol ! i + column_D sol ! i
                 = of_int N)"
    by blast
next
  fix out i
  assume out: "simulate euler_odeint N beta gamma mu days I0 = Inr out"
    and i: "i < length (t_out out)"
  from simulate_InrD [OF out] obtain g sol where
    run: "integrate euler_odeint N beta gamma mu days I0 = Inr (g, sol)"
    and f: "t_out out = g" "S_out out = column_S sol" "I_out out = column_I sol"
      "R_out out = column_R sol" "D_out out = column_D sol"
    by blast
  from euler_integrate_total(2) [OF run] i
  show "S_out out ! i + I_out out ! i + R_out out ! i + D_out out ! i = of_int N"
    by (simp add: f)
next
  fix x
  assume h: "exact_solution (of_int N) beta gamma mu (of_int days) S I R D
        \<and> (S 0, I 0, R 0, D 0) = initial_state N I0
        \<and> time_grid days = Inr t"
    and x: "x \<in> set t"
  from h x have rng: "0 \<le> x" "x \<le> of_int days" using time_grid_range by blast+
  from h have "S x + I x + R x + D x = S 0 + I 0 + R 0 + D 0"
    using exact_solution_conserved rng by blast
  also have "\<dots> = total (S 0, I 0, R 0, D 0)" by (simp add: total_def)
  also have "\<dots> = total (initial_state N I0)" using h by simp
  also have "\<dots> = of_int N" by (rule initial_state_total)
  finally show "total (S x, I x, R x, D x) = of_int N"
    by (simp add: total_def)
qed

theorem SIRD_conservation_witness:
  "total (initial_state 1000 1) = 1000
   \<and> (\<exists>d. SIR_model (999, 1, 0, 0) 0 1000 (3/10) (1/20) (1/50) = Inr d \<and> total d = 0)
   \<and> (1000::int) \<noteq> 0 \<and> (1::int) \<le> 1
   \<and> (\<exists>sol. integrate euler_odeint 1000 (3/10) (1/20) (1/50) 1 1
               = Inr ([0, 1/9, 2/9, 1/3, 4/9, 5/9, 2/3, 7/9, 8/9, 1], sol)
          \<and> length sol = 10
          \<and> (\<forall>i < 10. column_S sol ! i + column_I sol ! i + column_R sol ! i
                 + column_D sol ! i = 1000)
          \<and> (\<exists>out. simulate euler_odeint 1000 (3/10) (1/20) (1/50) 1 1 = Inr out
                 \<and> (\<forall>i < 10. S_out out ! i + I_out out ! i + R_out out ! i
                        + D_out out ! i = 1000)))
   \<and> exact_solution 1000 0 (9/10) (1/10) 1
        (\<lambda>s. 999) (\<lambda>s. exp (- s)) (\<lambda>s. 9/10 * (1 - exp (- s))) (\<lambda>s. 1/10 * (1 - exp (- s)))
   \<and> (999, exp (- 0), 9/10 * (1 - exp (- 0)), 1/10 * (1 - exp (- 0))) = initial_state 1000 1
   \<and> time_grid 1 = Inr [0, 1/9, 2/9, 1/3, 4/9, 5/9, 2/3, 7/9, 8/9, 1]
   \<and> list_all (\<lambda>x. total (999, exp (- x), 9/10 * (1 - exp (- x)), 1/10 * (1 - exp (- x))) = 1000)
        [0, 1/9, 2/9, 1/3, 4/9, 5/9, 2/3, 7/9, 8/9, 1]"
proof -
  let ?t = "[0, 1/9, 2/9, 1/3, 4/9, 5/9, 2/3, 7/9, 8/9, 1::real]"
  have g: "time_grid 1 = Inr ?t" by (rule time_grid_one_day)
  have e: "exact_solution (of_int 1000) 0 (9/10) (1/10) (of_int 1)
        (\<lambda>s. 999) (\<lambda>s. exp (- s)) (\<lambda>s. 9/10 * (1 - exp (- s))) (\<lambda>s. 1/10 * (1 - exp (- s)))"
    using decay_solution [of 1] by simp
  have i: "(999, exp (- 0), 9/10 * (1 - exp (- 0)), 1/10 * (1 - exp (- 0))) = initial_state 1000 1"
    by (simp add: initial_state_def)
  note c1 = SIRD_conservation [of 1000 1 1000 "(999, 1, 0, 0)" 0 "3/10" "1/20" "1/50" 1
      "\<lambda>s. 999" "\<lambda>s. 999" "\<lambda>s. 999" "\<lambda>s. 999" "[]"]
  note c2 = SIRD_conservation [of 1000 1 1000 "(999, 1, 0, 0)" 0 0 "9/10" "1/10" 1
      "\<lambda>s. 999" "\<lambda>s. exp (- s)" "\<lambda>s. 9/10 * (1 - exp (- s))" "\<lambda>s. 1/10 * (1 - exp (- s))" ?t]
  have a: "total (initial_state 1000 1) = 1000" using c1 by simp
  have b: "\<exists>d. SIR_model (999, 1, 0, 0) 0 1000 (3/10) (1/20) (1/50) = Inr d \<and> total d = 0"
    using c1 by fastforce
  from c1 obtain t sol where
    t: "time_grid 1 = Inr t"
    and run: "integrate euler_odeint 1000 (3/10) (1/20) (1/50) 1 1 = Inr (t, sol)"
    and len: "length sol = length t"
    and rows: "\<forall>i < length t.
        column_S sol ! i + column_I sol ! i + column_R sol ! i + column_D sol ! i = of_int 1000"
    by auto
  have tg: "t = ?t" using t g by simp
  have gm: "(1/20 + 1/50 :: real) \<noteq> 0" by simp
  from simulate_Inr [OF run len _ gm] tg obtain out where
    out: "simulate euler_odeint 1000 (3/10) (1/20) (1/50) 1 1 = Inr out" "t_out out = t"
    by auto
  from c1 out(1) have "\<forall>i < length (t_out out).
      S_out out ! i + I_out out ! i + R_out out ! i + D_out out ! i = of_int 1000"
    by blast
  then have o: "\<exists>out. simulate euler_odeint 1000 (3/10) (1/20) (1/50) 1 1 = Inr out
      \<and> (\<forall>i < 10. S_out out ! i + I_out out ! i + R_out out ! i + D_out out ! i = 1000)"
    using out by (auto simp: tg)
  have r: "\<exists>sol. integrate euler_odeint 1000 (3/10) (1/20) (1/50) 1 1 = Inr (?t, sol)
          \<and> length sol = 10
          \<and> (\<forall>i < 10. column_S sol ! i + column_I sol ! i + column_R sol ! i
                 + column_D sol ! i = 1000)
          \<and> (\<exists>out. simulate euler_odeint 1000 (3/10) (1/20) (1/50) 1 1 = Inr out
                 \<and> (\<forall>i < 10. S_out out ! i + I_out out ! i + R_out out ! i
                        + D_out out ! i = 1000))"
    using run len rows o by (auto simp: tg)
  have "\<forall>x \<in> set ?t. total (999, exp (- x), 9/10 * (1 - exp (- x)), 1/10 * (1 - exp (- x))) = of_int 1000"
    using c2 e i g by blast
  then have c: "list_all (\<lambda>x. total (999, exp (- x), 9/10 * (1 - exp (- x)), 1/10 * (1 - exp (- x))) = 1000) ?t"
    unfolding list_all_iff by simp
  show ?thesis by (intro conjI a b r decay_solution i g c) simp_all
qed

section \<open>Monotonicity\<close>

text \<open>
  C6. With N > 0 and \<beta>, \<gamma>, \<mu> \<ge> 0: at every state with S, I \<ge> 0, \<open>SIR_model\<close> returns
  dS/dt \<le> 0, dR/dt \<ge> 0 and dD/dt \<ge> 0; and along every exact solution that keeps
  S, I \<ge> 0 on [0, T], D and R are non-decreasing and S is non-increasing over time.
\<close>

theorem SIRD_monotonicity:
  assumes "0 < N" and "0 \<le> beta" and "0 \<le> gamma" and "0 \<le> mu"
  shows "(0 \<le> S0 \<and> 0 \<le> I0 \<longrightarrow>
            (\<exists>dS dI dR dD. SIR_model (S0, I0, R0, D0) s N beta gamma mu = Inr (dS, dI, dR, dD)
                \<and> dS \<le> 0 \<and> 0 \<le> dR \<and> 0 \<le> dD))
         \<and> (exact_solution N beta gamma mu T S I R D
              \<and> (\<forall>x. 0 \<le> x \<and> x \<le> T \<longrightarrow> 0 \<le> S x \<and> 0 \<le> I x)
              \<and> 0 \<le> a \<and> a \<le> b \<and> b \<le> T
            \<longrightarrow> D a \<le> D b \<and> R a \<le> R b \<and> S b \<le> S a)"
proof (intro conjI impI)
  assume st: "0 \<le> S0 \<and> 0 \<le> I0"
  have N: "N \<noteq> 0" using assms(1) by simp
  have "0 \<le> beta * S0 * I0 / N" using assms st by simp
  then have "- beta * S0 * I0 / N \<le> 0" by simp
  moreover have "0 \<le> gamma * I0" "0 \<le> mu * I0" using assms st by simp_all
  ultimately show "\<exists>dS dI dR dD.
      SIR_model (S0, I0, R0, D0) s N beta gamma mu = Inr (dS, dI, dR, dD)
      \<and> dS \<le> 0 \<and> 0 \<le> dR \<and> 0 \<le> dD"
    by (simp add: SIR_model_Inr [OF N])
next
  assume h: "exact_solution N beta gamma mu T S I R D
              \<and> (\<forall>x. 0 \<le> x \<and> x \<le> T \<longrightarrow> 0 \<le> S x \<and> 0 \<le> I x)
              \<and> 0 \<le> a \<and> a \<le> b \<and> b \<le> T"
  then have sol: "exact_solution N beta gamma mu T S I R D"
    and pos: "\<And>x. 0 \<le> x \<Longrightarrow> x \<le> T \<Longrightarrow> 0 \<le> S x \<and> 0 \<le> I x"
    and ab: "0 \<le> a" "a \<le> b" "b \<le> T"
    by blast+
  from exact_solution_monotone [OF sol assms pos ab]
  show "D a \<le> D b" and "R a \<le> R b" and "S b \<le> S a" by blast+
qed

theorem SIRD_monotonicity_witness:
  "(0::real) < 1000 \<and> (0::real) \<le> 3/10 \<and> (0::real) \<le> 1/20 \<and> (0::real) \<le> 1/50
   \<and> SIR_model (999, 1, 0, 0) 0 1000 (3/10) (1/20) (1/50)
        = Inr (- (2997/10000), 2297/10000, 1/20, 1/50)
   \<and> exact_solution 1000 0 (9/10) (1/10) 1
        (\<lambda>s. 999) (\<lambda>s. exp (- s)) (\<lambda>s. 9/10 * (1 - exp (- s))) (\<lambda>s. 1/10 * (1 - exp (- s)))
   \<and> 1/10 * (1 - exp (- (1/9))) \<le> 1/10 * (1 - exp (- (8/9::real)))
   \<and> 9/10 * (1 - exp (- (1/9))) \<le> 9/10 * (1 - exp (- (8/9::real)))
   \<and> (999::real) \<le> 999"
proof -
  have e: "exact_solution 1000 0 (9/10) (1/10) 1
        (\<lambda>s. 999) (\<lambda>s. exp (- s)) (\<lambda>s. 9/10 * (1 - exp (- s))) (\<lambda>s. 1/10 * (1 - exp (- s)))"
    by (rule decay_solution)
  have m1: "\<exists>dS dI dR dD. SIR_model (999, 1, 0, 0) 0 1000 (3/10) (1/20) (1/50) = Inr (dS, dI, dR, dD)
              \<and> dS \<le> 0 \<and> 0 \<le> dR \<and> 0 \<le> dD"
    using SIRD_monotonicity [of 1000 "3/10" "1/20" "1/50" 999 1 0 0 0 0
        "\<lambda>s. 0" "\<lambda>s. 0" "\<lambda>s. 0" "\<lambda>s. 0" 0 0]
    by simp
  have v: "SIR_model (999, 1, 0, 0) 0 1000 (3/10) (1/20) (1/50)
        = Inr (- (2997/10000), 2297/10000, 1/20, 1/50)"
    using m1 by (simp add: SIR_model_def np_truediv_def)
  have p: "(0::real) < 1000" "(0::real) \<le> 0" "(0::real) \<le> 9/10" "(0::real) \<le> 1/10"
    by simp_all
  note m2 = SIRD_monotonicity [OF p, where T = 1 and a = "1/9" and b = "8/9"
      and S = "\<lambda>s. 999" and I = "\<lambda>s. exp (- s)"
      and R = "\<lambda>s. 9/10 * (1 - exp (- s))" and D = "\<lambda>s. 1/10 * (1 - exp (- s))",
      THEN conjunct2, THEN mp]
  have t: "1/10 * (1 - exp (- (1/9))) \<le> 1/10 * (1 - exp (- (8/9::real)))
        \<and> 9/10 * (1 - exp (- (1/9))) \<le> 9/10 * (1 - exp (- (8/9::real)))
        \<and> (999::real) \<le> 999"
    by (rule m2) (intro conjI e allI impI; simp)
  from v e t show ?thesis by simp
qed

section \<open>The effective reproduction number\<close>

text \<open>
  C7. With \<gamma> + \<mu> > 0 and N > 0, the \<open>Re\<close> line yields a sequence as long as S whose
  i-th element is (\<beta> / (\<gamma> + \<mu>)) \<sqdot> (S[i] / N).
\<close>

theorem Re_seq_pointwise:
  assumes "0 < gamma + mu" and "0 < N"
  shows "\<exists>re. Re_seq beta gamma mu N S = Inr re \<and> length re = length S
              \<and> (\<forall>i < length S. re ! i = beta / (gamma + mu) * (S ! i / N))"
proof -
  have "gamma + mu \<noteq> 0" and "N \<noteq> 0" using assms by simp_all
  then have "Re_seq beta gamma mu N S = Inr (map (\<lambda>s. beta / (gamma + mu) * (s / N)) S)"
    by (rule Re_seq_Inr)
  then show ?thesis by simp
qed

theorem Re_seq_pointwise_witness:
  "(0::real) < 1/20 + 1/50 \<and> (0::real) < 1000
   \<and> Re_seq (3/10) (1/20) (1/50) 1000 [999, 700, 70] = Inr [2997/700, 3, 3/10]"
  using Re_seq_pointwise [of "1/20" "1/50" 1000 "3/10" "[999, 700, 70]"]
  by (simp add: Re_seq_def py_truediv_def np_truediv_def)

text \<open>
  C3, as the specification states it: with \<gamma> + \<mu> = 0 the computation of \<open>Re\<close> fails with
  DomainError("recovery and mortality rate cannot both be zero"). The script has no such
  check; the failure it produces is Python's own ZeroDivisionError.
\<close>

theorem Re_seq_not_DomainError:
  "Re_seq (3/10) 0 0 1000 [999, 998] = Inl ZeroDivisionError
   \<and> Re_seq (3/10) 0 0 1000 [999, 998]
       \<noteq> Inl (DomainError ''recovery and mortality rate cannot both be zero'')"
  by (simp add: Re_seq_def py_truediv_def)

text \<open>
  C3, amended. For every input with \<gamma> + \<mu> = 0 the \<open>Re\<close> line fails with ZeroDivisionError
  (the float division \<open>beta / (gamma + mu)\<close>), whatever S and N are; no sequence, and so no
  NaN or Inf, is produced, and the whole computation never completes.
\<close>

theorem Re_seq_zero_removal:
  assumes "gamma + mu = 0"
  shows "Re_seq beta gamma mu N S = Inl ZeroDivisionError
         \<and> (\<forall>re. Re_seq beta gamma mu N S \<noteq> Inr re)
         \<and> (\<forall>out. simulate odeint Ni beta gamma mu days I0 \<noteq> Inr out)"
proof -
  have r: "Re_seq beta gamma mu M xs = Inl ZeroDivisionError" for M xs
    using assms by (rule Re_seq_Inl)
  have "simulate odeint Ni beta gamma mu days I0 \<noteq> Inr out" for out
    by (simp add: simulate_def r Let_def split: sum.splits prod.splits)
  with r show ?thesis by simp
qed

theorem Re_seq_zero_removal_witness:
  "(0::real) + 0 = 0
   \<and> Re_seq (3/10) 0 0 1000 [999, 998] = Inl ZeroDivisionError
   \<and> (\<nexists>out. simulate euler_odeint 1000 (3/10) 0 0 1 1 = Inr out)"
  using Re_seq_zero_removal [of 0 0 "3/10" 1000 "[999, 998]" euler_odeint 1000 1 1]
  by simp

section \<open>The epidemic threshold\<close>

text \<open>
  C9, as the specification states it, for every valid input: if Re(0) > 1 then dI/dt at
  the initial state is positive, and if Re(0) < 1 it is non-positive. Next to the
  threshold the script's double arithmetic breaks both implications. With \<beta> = 0.5,
  \<gamma> = 0.15, \<mu> = 0.015, N = 1000 and I0 = 670 the exact values are Re(0) = 1 and
  dI/dt = 0, but line 92 gives 1 + 2^-52 > 1 and line 74 gives -2^-49 < 0. With \<beta> = 0.7,
  \<gamma> = 0.1, \<mu> = 0.02, N = 105 and I0 = 87 line 92 gives 1 - 2^-52 < 1 and line 74 gives
  2^-52 > 0.
\<close>

theorem threshold_fails_in_doubles:
  "Re_seq_f64 (1/2) (f64 (15/100)) (f64 (15/1000)) 1000 (column_S [initial_state 1000 670])
     = Inr [4503599627370497 / 4503599627370496]
   \<and> (1::real) < 4503599627370497 / 4503599627370496
   \<and> SIR_model_f64 (initial_state 1000 670) 0 1000 (1/2) (f64 (15/100)) (f64 (15/1000))
     = Inr (- (7779264668840755 / 70368744177664), - (1 / 562949953421312), 201 / 2, 5657647031884185 / 562949953421312)
   \<and> (- (1 / 562949953421312) :: real) < 0
   \<and> Re_seq_f64 (f64 (7/10)) (f64 (1/10)) (f64 (2/100)) 105 (column_S [initial_state 105 87])
     = Inr [4503599627370495 / 4503599627370496]
   \<and> (4503599627370495 / 4503599627370496 :: real) < 1
   \<and> SIR_model_f64 (initial_state 105 87) 0 105 (f64 (7/10)) (f64 (1/10)) (f64 (2/100))
     = Inr (- (2938598756859249 / 281474976710656), 1 / 4503599627370496, 4897664594765415 / 562949953421312, 7836263351624663 / 4503599627370496)
   \<and> (0::real) < 1 / 4503599627370496"
proof -
  have a1: "f64 (3 / 20) = 5404319552844595 / 36028797018963968"
    using f64_eval [of "-3" "3 / 20"] by (simp add: round_half_even_def Let_def)
  have a2: "f64 (3 / 200) = 1080863910568919 / 72057594037927936"
    using f64_eval [of "-7" "3 / 200"] by (simp add: round_half_even_def Let_def)
  have a3: "f64 (11889503016258109 / 72057594037927936) = 2972375754064527 / 18014398509481984"
    using f64_eval [of "-3" "11889503016258109 / 72057594037927936"] by (simp add: round_half_even_def Let_def)
  have a4: "f64 (9007199254740992 / 2972375754064527) = 6823635799046207 / 2251799813685248"
    using f64_eval [of 1 "9007199254740992 / 2972375754064527"] by (simp add: round_half_even_def Let_def)
  have a5: "f64 (33 / 100) = 5944751508129055 / 18014398509481984"
    using f64_eval [of "-2" "33 / 100"] by (simp add: round_half_even_def Let_def)
  have a6: "f64 (40564819207303348342976064244385 / 40564819207303340847894502572032) = 4503599627370497 / 4503599627370496"
    using f64_eval [of 0 "40564819207303348342976064244385 / 40564819207303340847894502572032"] by (simp add: round_half_even_def Let_def)
  have a7: "f64 (- 165) = - 165"
    using f64_eval [of 7 "- 165"] by (simp add: round_half_even_def Let_def)
  have a8: "f64 (- 110550) = - 110550"
    using f64_eval [of 16 "- 110550"] by (simp add: round_half_even_def Let_def)
  have a9: "f64 (- (2211 / 20)) = - (7779264668840755 / 70368744177664)"
    using f64_eval [of 6 "- (2211 / 20)"] by (simp add: round_half_even_def Let_def)
  have a10: "f64 (165) = 165"
    using f64_eval [of 7 "165"] by (simp add: round_half_even_def Let_def)
  have a11: "f64 (110550) = 110550"
    using f64_eval [of 16 "110550"] by (simp add: round_half_even_def Let_def)
  have a12: "f64 (2211 / 20) = 7779264668840755 / 70368744177664"
    using f64_eval [of 6 "2211 / 20"] by (simp add: round_half_even_def Let_def)
  have a13: "f64 (1810447050202939325 / 18014398509481984) = 201 / 2"
    using f64_eval [of 6 "1810447050202939325 / 18014398509481984"] by (simp add: round_half_even_def Let_def)
  have a14: "f64 (707205878985523 / 70368744177664) = 707205878985523 / 70368744177664"
    using f64_eval [of 3 "707205878985523 / 70368744177664"] by (simp add: round_half_even_def Let_def)
  have a15: "f64 (362089410040587865 / 36028797018963968) = 5657647031884185 / 562949953421312"
    using f64_eval [of 3 "362089410040587865 / 36028797018963968"] by (simp add: round_half_even_def Let_def)
  have a16: "f64 (- (1 / 562949953421312)) = - (1 / 562949953421312)"
    using f64_eval [of "-49" "- (1 / 562949953421312)"] by (simp add: round_half_even_def Let_def)
  have b1: "f64 (7 / 10) = 3152519739159347 / 4503599627370496"
    using f64_eval [of "-1" "7 / 10"] by (simp add: round_half_even_def Let_def)
  have b2: "f64 (1 / 10) = 3602879701896397 / 36028797018963968"
    using f64_eval [of "-4" "1 / 10"] by (simp add: round_half_even_def Let_def)
  have b3: "f64 (1 / 50) = 5764607523034235 / 288230376151711744"
    using f64_eval [of "-6" "1 / 50"] by (simp add: round_half_even_def Let_def)
  have b4: "f64 (34587645138205411 / 288230376151711744) = 8646911284551353 / 72057594037927936"
    using f64_eval [of "-4" "34587645138205411 / 288230376151711744"] by (simp add: round_half_even_def Let_def)
  have b5: "f64 (50440315826549552 / 8646911284551353) = 1641937364145493 / 281474976710656"
    using f64_eval [of 2 "50440315826549552 / 8646911284551353"] by (simp add: round_half_even_def Let_def)
  have b6: "f64 (6 / 35) = 3088182601625483 / 18014398509481984"
    using f64_eval [of "-3" "6 / 35"] by (simp add: round_half_even_def Let_def)
  have b7: "f64 (5070602400912916623505108398119 / 5070602400912917605986812821504) = 4503599627370495 / 4503599627370496"
    using f64_eval [of "-1" "5070602400912916623505108398119 / 5070602400912917605986812821504"] by (simp add: round_half_even_def Let_def)
  have b8: "f64 (- (28372677652434123 / 2251799813685248)) = - (7093169413108531 / 562949953421312)"
    using f64_eval [of 3 "- (28372677652434123 / 2251799813685248)"] by (simp add: round_half_even_def Let_def)
  have b9: "f64 (- (617105738940442197 / 562949953421312)) = - (4821138585472205 / 4398046511104)"
    using f64_eval [of 10 "- (617105738940442197 / 562949953421312)"] by (simp add: round_half_even_def Let_def)
  have b10: "f64 (- (964227717094441 / 92358976733184)) = - (2938598756859249 / 281474976710656)"
    using f64_eval [of 3 "- (964227717094441 / 92358976733184)"] by (simp add: round_half_even_def Let_def)
  have b11: "f64 (28372677652434123 / 2251799813685248) = 7093169413108531 / 562949953421312"
    using f64_eval [of 3 "28372677652434123 / 2251799813685248"] by (simp add: round_half_even_def Let_def)
  have b12: "f64 (617105738940442197 / 562949953421312) = 4821138585472205 / 4398046511104"
    using f64_eval [of 10 "617105738940442197 / 562949953421312"] by (simp add: round_half_even_def Let_def)
  have b13: "f64 (964227717094441 / 92358976733184) = 2938598756859249 / 281474976710656"
    using f64_eval [of 3 "964227717094441 / 92358976733184"] by (simp add: round_half_even_def Let_def)
  have b14: "f64 (313450534064986539 / 36028797018963968) = 4897664594765415 / 562949953421312"
    using f64_eval [of 3 "313450534064986539 / 36028797018963968"] by (simp add: round_half_even_def Let_def)
  have b15: "f64 (979532918953083 / 562949953421312) = 979532918953083 / 562949953421312"
    using f64_eval [of 0 "979532918953083 / 562949953421312"] by (simp add: round_half_even_def Let_def)
  have b16: "f64 (501520854503978445 / 288230376151711744) = 7836263351624663 / 4503599627370496"
    using f64_eval [of 0 "501520854503978445 / 288230376151711744"] by (simp add: round_half_even_def Let_def)
  have b17: "f64 (1 / 4503599627370496) = 1 / 4503599627370496"
    using f64_eval [of "-52" "1 / 4503599627370496"] by (simp add: round_half_even_def Let_def)
  have i: "initial_state 1000 670 = (330, 670, 0, 0)" "initial_state 105 87 = (18, 87, 0, 0)"
    by (simp_all add: initial_state_def)
  show ?thesis
    by (simp add: i column_S_def Re_seq_f64_def SIR_model_f64_def py_truediv_f64_def
        np_truediv_f64_def a1 a2 a3 a4 a5 a6 a7 a8 a9 a10 a11 a12 a13 a14 a15 a16 b1 b2 b3 b4 b5 b6 b7 b8 b9 b10 b11 b12 b13 b14 b15 b16 b17)
qed

text \<open>
  C9, amended: the threshold holds for the exact real values of the script's expressions.
  With N > 0, \<gamma> + \<mu> > 0 and I0 \<ge> 1, let Re(0) be the first element of the \<open>Re\<close>
  sequence of a trajectory that starts in the initial state. Both Re(0) and the
  derivative at the initial state are defined; if Re(0) > 1 then dI/dt there is positive,
  and if Re(0) < 1 then dI/dt there is non-positive.
\<close>

theorem epidemic_threshold:
  assumes "0 < N" and "0 < gamma + mu" and "1 \<le> I0"
  shows "\<exists>r0 rs dS dI dR dD.
           Re_seq beta gamma mu (of_int N) (column_S (initial_state N I0 # rest)) = Inr (r0 # rs)
           \<and> SIR_model (initial_state N I0) 0 (of_int N) beta gamma mu = Inr (dS, dI, dR, dD)
           \<and> (1 < r0 \<longrightarrow> 0 < dI) \<and> (r0 < 1 \<longrightarrow> dI \<le> 0)"
proof -
  let ?N = "real_of_int N" and ?I = "real_of_int I0"
  let ?S = "real_of_int (N - I0)"
  let ?r0 = "beta / (gamma + mu) * (?S / ?N)"
  let ?dI = "beta * ?S * ?I / ?N - gamma * ?I - mu * ?I"
  have N: "?N \<noteq> 0" and g: "gamma + mu \<noteq> 0" and I: "0 < ?I" using assms by simp_all
  have re: "Re_seq beta gamma mu ?N (column_S (initial_state N I0 # rest))
        = Inr (?r0 # map (\<lambda>s. beta / (gamma + mu) * (s / ?N)) (column_S rest))"
    by (simp add: Re_seq_Inr [OF g N] column_S_def initial_state_def)
  have m: "SIR_model (initial_state N I0) 0 ?N beta gamma mu
        = Inr (- beta * ?S * ?I / ?N, ?dI, gamma * ?I, mu * ?I)"
    using SIR_model_Inr [OF N, of ?S ?I 0 0 0 beta gamma mu] by (simp add: initial_state_def)
  have "?I * (gamma + mu) * (?r0 - 1)
        = (gamma + mu) * (beta / (gamma + mu)) * (?I * (?S / ?N)) - ?I * (gamma + mu)"
    by (simp only: algebra_simps)
  also have "(gamma + mu) * (beta / (gamma + mu)) = beta" using g by simp
  finally have eq: "?dI = ?I * (gamma + mu) * (?r0 - 1)"
    by (simp only: algebra_simps times_divide_eq_right)
  have k: "0 < ?I * (gamma + mu)" using I assms(2) by simp
  have up: "0 < ?dI" if "1 < ?r0"
  proof -
    have "0 < ?r0 - 1" using that by simp
    with k have "0 < (?I * (gamma + mu)) * (?r0 - 1)" by (rule mult_pos_pos)
    then show ?thesis unfolding eq .
  qed
  have down: "?dI \<le> 0" if "?r0 < 1"
  proof -
    have "?r0 - 1 \<le> 0" and "0 \<le> ?I * (gamma + mu)" using that k by simp_all
    then have "(?I * (gamma + mu)) * (?r0 - 1) \<le> 0" by (simp only: mult_nonneg_nonpos)
    then show ?thesis unfolding eq .
  qed
  from re m up down show ?thesis by blast
qed

theorem epidemic_threshold_witness:
  "(0::int) < 1000 \<and> (0::real) < 1/20 + 1/50 \<and> (0::real) < 1/10 + 1/50 \<and> (1::int) \<le> 1
   \<and> Re_seq (3/10) (1/20) (1/50) 1000 (column_S [initial_state 1000 1]) = Inr [2997/700]
   \<and> (1::real) < 2997/700
   \<and> SIR_model (initial_state 1000 1) 0 1000 (3/10) (1/20) (1/50)
        = Inr (- (2997/10000), 2297/10000, 1/20, 1/50)
   \<and> Re_seq (1/20) (1/10) (1/50) 1000 (column_S [initial_state 1000 1]) = Inr [333/800]
   \<and> (333/800::real) < 1
   \<and> SIR_model (initial_state 1000 1) 0 1000 (1/20) (1/10) (1/50)
        = Inr (- (999/20000), - (1401/20000), 1/10, 1/50)"
proof -
  from epidemic_threshold [of 1000 "1/20" "1/50" 1 "3/10" "[]"]
  obtain r0 rs dS dI dR dD where
    a: "Re_seq (3/10) (1/20) (1/50) (of_int 1000) (column_S [initial_state 1000 1]) = Inr (r0 # rs)"
       "SIR_model (initial_state 1000 1) 0 (of_int 1000) (3/10) (1/20) (1/50) = Inr (dS, dI, dR, dD)"
       "1 < r0 \<longrightarrow> 0 < dI"
    by auto
  from epidemic_threshold [of 1000 "1/10" "1/50" 1 "1/20" "[]"]
  obtain r0' rs' dS' dI' dR' dD' where
    b: "Re_seq (1/20) (1/10) (1/50) (of_int 1000) (column_S [initial_state 1000 1]) = Inr (r0' # rs')"
       "SIR_model (initial_state 1000 1) 0 (of_int 1000) (1/20) (1/10) (1/50) = Inr (dS', dI', dR', dD')"
       "r0' < 1 \<longrightarrow> dI' \<le> 0"
    by auto
  have "r0 # rs = [2997/700]" "(dS, dI, dR, dD) = (- (2997/10000), 2297/10000, 1/20, 1/50)"
    using a(1,2)
    by (simp_all add: Re_seq_def py_truediv_def np_truediv_def column_S_def initial_state_def
        SIR_model_def)
  moreover have "r0' # rs' = [333/800]" "(dS', dI', dR', dD') = (- (999/20000), - (1401/20000), 1/10, 1/50)"
    using b(1,2)
    by (simp_all add: Re_seq_def py_truediv_def np_truediv_def column_S_def initial_state_def
        SIR_model_def)
  ultimately show ?thesis using a(1,2) b(1,2) by simp
qed

section \<open>The peak\<close>

text \<open>
  C5. For every non-empty Infected sequence I of a trajectory (one value per grid
  point), the reported peak magnitude is the maximum of I, and the reported peak day is
  the grid value at the first index where I attains that maximum.
\<close>

theorem peak_correct:
  assumes "I \<noteq> []" and "length I = length t"
  shows "\<exists>k. peak t I = Inr (Max (set I), t ! k)
             \<and> k < length I \<and> I ! k = Max (set I) \<and> (\<forall>j < k. I ! j < Max (set I))"
  using assms peak_Inr [of I t] by simp

theorem peak_correct_witness:
  "[1, 3, 2, 3] \<noteq> ([] :: real list)
   \<and> length [1, 3, 2, 3 :: real] = length [0, 1/3, 2/3, 1 :: real]
   \<and> peak [0, 1/3, 2/3, 1] [1, 3, 2, 3] = Inr (3, 1/3)
   \<and> Max (set [1, 3, 2, 3 :: real]) = 3"
  using peak_correct [of "[1, 3, 2, 3]" "[0, 1/3, 2/3, 1]"]
  by (simp add: peak_def np_max_def np_argmax_def getitem_def)

section \<open>The attack rate\<close>




section \<open>Input validation\<close>

text \<open>
  C4, as the specification states it: the integrator rejects N = 0 with a DomainError and
  days < 1, I0 < 1 or I0 > N with a ValidationError, before the solver runs. The script
  has no such checks. With N = 100, days = 1 and I0 = 0 (so I0 < 1) the solver is called
  on the initial state (100, 0, 0, 0) and its trajectory is returned.
\<close>

theorem integrate_runs_without_infected:
  "(0::int) < 1
   \<and> integrate euler_odeint 100 (3/10) (1/20) (1/50) 1 0 =
       Inr ([0, 1/9, 2/9, 1/3, 4/9, 5/9, 2/3, 7/9, 8/9, 1], replicate 10 (100, 0, 0, 0))"
proof -
  have i: "initial_state 100 0 = (100, 0, 0, 0)" by (simp add: initial_state_def)
  have "euler_steps (\<lambda>y s. SIR_model y s 100 (3/10) (1/20) (1/50)) (100, 0, 0, 0) 0
          [1/9, 2/9, 1/3, 4/9, 5/9, 2/3, 7/9, 8/9, 1]
        = Inr (replicate (Suc (length [1/9, 2/9, 1/3, 4/9, 5/9, 2/3, 7/9, 8/9, 1::real])) (100, 0, 0, 0))"
    by (rule euler_steps_no_infected) simp
  also have "Suc (length [1/9, 2/9, 1/3, 4/9, 5/9, 2/3, 7/9, 8/9, 1::real]) = 10" by simp
  finally show ?thesis
    by (simp add: integrate_def time_grid_one_day euler_odeint_def i del: euler_steps.simps)
qed

text \<open>
  C4, amended. The integrator validates nothing itself. For every input with days \<ge> 0,
  whatever N and I0 are, it builds the time grid and calls the solver on the initial
  state (N - I0, I0, 0, 0), and its outcome is the solver's. A negative days fails
  before the solver, with the ValueError of \<open>linspace\<close>. The input widgets alone keep N
  positive, days at least 1 and I0 between 1 and N.
\<close>

theorem integrate_unvalidated:
  "(widget_inputs N beta gamma mu days I0 \<longrightarrow> 0 < N \<and> 1 \<le> days \<and> 1 \<le> I0 \<and> I0 \<le> N)
   \<and> (0 \<le> days \<longrightarrow>
        (\<exists>t. time_grid days = Inr t
           \<and> integrate odeint N beta gamma mu days I0 =
               (case odeint (\<lambda>y s. SIR_model y s (of_int N) beta gamma mu)
                       (of_int (N - I0), of_int I0, 0, 0) t of
                  Inl e \<Rightarrow> Inl e
                | Inr sol \<Rightarrow> Inr (t, sol))))
   \<and> (days < 0 \<longrightarrow> integrate odeint N beta gamma mu days I0 = Inl ValueError)"
proof (intro conjI impI)
  assume "widget_inputs N beta gamma mu days I0"
  then show "0 < N" "1 \<le> days" "1 \<le> I0" "I0 \<le> N"
    by (simp_all add: widget_inputs_def)
next
  assume "0 \<le> days"
  then obtain t where t: "time_grid days = Inr t" using time_grid_total by blast
  have "integrate odeint N beta gamma mu days I0 =
          (case odeint (\<lambda>y s. SIR_model y s (of_int N) beta gamma mu)
                  (of_int (N - I0), of_int I0, 0, 0) t of
             Inl e \<Rightarrow> Inl e
           | Inr sol \<Rightarrow> Inr (t, sol))"
    by (simp add: integrate_def t initial_state_def)
  with t show "\<exists>t. time_grid days = Inr t
           \<and> integrate odeint N beta gamma mu days I0 =
               (case odeint (\<lambda>y s. SIR_model y s (of_int N) beta gamma mu)
                       (of_int (N - I0), of_int I0, 0, 0) t of
                  Inl e \<Rightarrow> Inl e
                | Inr sol \<Rightarrow> Inr (t, sol))"
    by blast
next
  assume "days < 0"
  then show "integrate odeint N beta gamma mu days I0 = Inl ValueError"
    by (simp add: integrate_def time_grid_negative)
qed

theorem integrate_unvalidated_witness:
  "widget_inputs 1000 (3/10) (1/20) (1/50) 160 1
   \<and> (0::int) < 1000 \<and> (1::int) \<le> 160 \<and> (1::int) \<le> 1 \<and> (1::int) \<le> 1000
   \<and> (0::int) \<le> 1
   \<and> time_grid 1 = Inr [0, 1/9, 2/9, 1/3, 4/9, 5/9, 2/3, 7/9, 8/9, 1]
   \<and> integrate euler_odeint 0 (3/10) (1/20) (1/50) 1 0 =
       (case euler_odeint (\<lambda>y s. SIR_model y s 0 (3/10) (1/20) (1/50)) (0, 0, 0, 0)
               [0, 1/9, 2/9, 1/3, 4/9, 5/9, 2/3, 7/9, 8/9, 1] of
          Inl e \<Rightarrow> Inl e
        | Inr sol \<Rightarrow> Inr ([0, 1/9, 2/9, 1/3, 4/9, 5/9, 2/3, 7/9, 8/9, 1], sol))
   \<and> (-1::int) < 0
   \<and> integrate euler_odeint 1000 (3/10) (1/20) (1/50) (-1) 1 = Inl ValueError"
proof -
  have w: "widget_inputs 1000 (3/10) (1/20) (1/50) 160 1" by (simp add: widget_inputs_def)
  note a = integrate_unvalidated [of 1000 "3/10" "1/20" "1/50" 160 1 euler_odeint]
  note b = integrate_unvalidated [of 0 "3/10" "1/20" "1/50" 1 0 euler_odeint]
  note c = integrate_unvalidated [of 1000 "3/10" "1/20" "1/50" "-1" 1 euler_odeint]
  have 1: "(0::int) < 1000 \<and> (1::int) \<le> 160 \<and> (1::int) \<le> 1 \<and> (1::int) \<le> 1000"
    using a w by blast
  have 2: "integrate euler_odeint 0 (3/10) (1/20) (1/50) 1 0 =
       (case euler_odeint (\<lambda>y s. SIR_model y s 0 (3/10) (1/20) (1/50)) (0, 0, 0, 0)
               [0, 1/9, 2/9, 1/3, 4/9, 5/9, 2/3, 7/9, 8/9, 1] of
          Inl e \<Rightarrow> Inl e
        | Inr sol \<Rightarrow> Inr ([0, 1/9, 2/9, 1/3, 4/9, 5/9, 2/3, 7/9, 8/9, 1], sol))"
    using b by (simp add: time_grid_one_day del: euler_steps.simps)
  have 3: "integrate euler_odeint 1000 (3/10) (1/20) (1/50) (-1) 1 = Inl ValueError"
    using c by simp
  from w 1 2 3 time_grid_one_day show ?thesis by simp
qed

section \<open>The time grid and the lengths of the sequences\<close>

text \<open>
  C10, as the specification states it: for every days in [1, 365] the four trajectory
  sequences and the \<open>Re\<close> sequence each have the length of the time grid. The sliders
  allow \<gamma> = \<mu> = 0 (recovery rate 0.0 with mortality ignored); then line 92 raises
  ZeroDivisionError and no \<open>Re\<close> sequence exists, as with the default N = 1000,
  \<beta> = 0.3, days = 160 and I0 = 1.
\<close>

theorem no_Re_sequence_without_removal:
  "widget_inputs 1000 (3/10) 0 0 160 1
   \<and> simulate euler_odeint 1000 (3/10) 0 0 160 1 = Inl ZeroDivisionError"
proof -
  have w: "widget_inputs 1000 (3/10) 0 0 160 1" by (simp add: widget_inputs_def)
  from euler_run_widget [OF w] obtain t sol where
    "integrate euler_odeint 1000 (3/10) 0 0 160 1 = Inr (t, sol)"
    "length sol = length t" "t \<noteq> []"
    by blast
  then have "simulate euler_odeint 1000 (3/10) 0 0 160 1 = Inl ZeroDivisionError"
    by (rule simulate_zero_removal) simp
  with w show ?thesis by simp
qed

text \<open>
  C10, amended. For every days in [1, 365] the time grid exists, has days \<sqdot> 10 points,
  starts at 0, ends at days and is strictly increasing with a constant step. For N \<noteq> 0
  the integration (with the reference solver) completes with one state per grid point,
  so the four trajectory sequences each have the length of the grid. When \<gamma> + \<mu> \<noteq> 0
  the whole computation completes and the \<open>Re\<close> sequence has that length too; when
  \<gamma> + \<mu> = 0 it stops with ZeroDivisionError and produces no \<open>Re\<close> sequence.
\<close>

theorem time_grid_and_lengths:
  assumes "1 \<le> days" and "days \<le> 365"
  shows "\<exists>t. time_grid days = Inr t
             \<and> length t = nat (days * 10) \<and> hd t = 0 \<and> last t = of_int days
             \<and> sorted_wrt (<) t
             \<and> (\<forall>i < length t. t ! i = real i * (of_int days / of_int (days * 10 - 1)))
             \<and> (N \<noteq> 0 \<longrightarrow>
                  (\<exists>sol. integrate euler_odeint N beta gamma mu days I0 = Inr (t, sol)
                     \<and> length (column_S sol) = length t \<and> length (column_I sol) = length t
                     \<and> length (column_R sol) = length t \<and> length (column_D sol) = length t
                     \<and> (gamma + mu \<noteq> 0 \<longrightarrow>
                          (\<exists>out. simulate euler_odeint N beta gamma mu days I0 = Inr out
                             \<and> t_out out = t
                             \<and> S_out out = column_S sol \<and> I_out out = column_I sol
                             \<and> R_out out = column_R sol \<and> D_out out = column_D sol
                             \<and> length (Re_out out) = length t))
                     \<and> (gamma + mu = 0 \<longrightarrow>
                          simulate euler_odeint N beta gamma mu days I0
                            = Inl ZeroDivisionError)))"
proof -
  from assms(1) obtain t where t: "time_grid days = Inr t"
    using time_grid_total [of days] by auto
  note hl = time_grid_hd_last [OF assms(1) t]
  have run: "\<exists>sol. integrate euler_odeint N beta gamma mu days I0 = Inr (t, sol)
                     \<and> length (column_S sol) = length t \<and> length (column_I sol) = length t
                     \<and> length (column_R sol) = length t \<and> length (column_D sol) = length t
                     \<and> (gamma + mu \<noteq> 0 \<longrightarrow>
                          (\<exists>out. simulate euler_odeint N beta gamma mu days I0 = Inr out
                             \<and> t_out out = t
                             \<and> S_out out = column_S sol \<and> I_out out = column_I sol
                             \<and> R_out out = column_R sol \<and> D_out out = column_D sol
                             \<and> length (Re_out out) = length t))
                     \<and> (gamma + mu = 0 \<longrightarrow>
                          simulate euler_odeint N beta gamma mu days I0
                            = Inl ZeroDivisionError)"
    if N: "N \<noteq> 0"
  proof -
    from euler_run_any [OF N assms(1), of beta gamma mu I0] t obtain sol where
      int: "integrate euler_odeint N beta gamma mu days I0 = Inr (t, sol)"
      and len: "length sol = length t"
      by auto
    have complete: "\<exists>out. simulate euler_odeint N beta gamma mu days I0 = Inr out
                \<and> t_out out = t
                \<and> S_out out = column_S sol \<and> I_out out = column_I sol
                \<and> R_out out = column_R sol \<and> D_out out = column_D sol
                \<and> length (Re_out out) = length t"
      if g: "gamma + mu \<noteq> 0"
    proof -
      from simulate_Inr [OF int len hl(1) g N] obtain out where
        out: "simulate euler_odeint N beta gamma mu days I0 = Inr out" "t_out out = t"
          "S_out out = column_S sol" "I_out out = column_I sol"
          "R_out out = column_R sol" "D_out out = column_D sol"
          "Re_out out = map (\<lambda>s. beta / (gamma + mu) * (s / of_int N)) (column_S sol)"
        by blast
      then show ?thesis by (simp add: column_lengths len)
    qed
    have stop: "simulate euler_odeint N beta gamma mu days I0 = Inl ZeroDivisionError"
      if "gamma + mu = 0"
      using int len hl(1) that by (rule simulate_zero_removal)
    from int complete stop show ?thesis by (auto simp: column_lengths len)
  qed
  have "length t = nat (days * 10)" by (rule time_grid_length [OF assms(1) t])
  moreover have "sorted_wrt (<) t" by (rule time_grid_increasing [OF assms(1) t])
  moreover have "\<forall>i < length t. t ! i = real i * (of_int days / of_int (days * 10 - 1))"
    using time_grid_nth [OF assms(1) t] by blast
  ultimately show ?thesis using t hl(2,3) run by blast
qed

theorem time_grid_and_lengths_witness:
  "(1::int) \<le> 1 \<and> (1::int) \<le> 365 \<and> (1000::int) \<noteq> 0
   \<and> (1/20 + 1/50 :: real) \<noteq> 0 \<and> (0 + 0 :: real) = 0
   \<and> time_grid 1 = Inr [0, 1/9, 2/9, 1/3, 4/9, 5/9, 2/3, 7/9, 8/9, 1]
   \<and> (\<exists>sol out.
        integrate euler_odeint 1000 (3/10) (1/20) (1/50) 1 1
          = Inr ([0, 1/9, 2/9, 1/3, 4/9, 5/9, 2/3, 7/9, 8/9, 1], sol)
        \<and> simulate euler_odeint 1000 (3/10) (1/20) (1/50) 1 1 = Inr out
        \<and> length (t_out out) = 10
        \<and> length (S_out out) = 10 \<and> length (I_out out) = 10
        \<and> length (R_out out) = 10 \<and> length (D_out out) = 10
        \<and> length (Re_out out) = 10)
   \<and> simulate euler_odeint 1000 (3/10) 0 0 1 1 = Inl ZeroDivisionError"
proof -
  let ?g = "[0, 1/9, 2/9, 1/3, 4/9, 5/9, 2/3, 7/9, 8/9, 1::real]"
  have g: "time_grid 1 = Inr ?g" by (rule time_grid_one_day)
  from time_grid_and_lengths [of 1 1000 "3/10" "1/20" "1/50" 1] g
  obtain sol out where
    "integrate euler_odeint 1000 (3/10) (1/20) (1/50) 1 1 = Inr (?g, sol)"
    "length (column_S sol) = length ?g" "length (column_I sol) = length ?g"
    "length (column_R sol) = length ?g" "length (column_D sol) = length ?g"
    "simulate euler_odeint 1000 (3/10) (1/20) (1/50) 1 1 = Inr out" "t_out out = ?g"
    "S_out out = column_S sol" "I_out out = column_I sol"
    "R_out out = column_R sol" "D_out out = column_D sol"
    "length (Re_out out) = length ?g"
    by auto
  then have a: "\<exists>sol out.
        integrate euler_odeint 1000 (3/10) (1/20) (1/50) 1 1 = Inr (?g, sol)
        \<and> simulate euler_odeint 1000 (3/10) (1/20) (1/50) 1 1 = Inr out
        \<and> length (t_out out) = 10
        \<and> length (S_out out) = 10 \<and> length (I_out out) = 10
        \<and> length (R_out out) = 10 \<and> length (D_out out) = 10
        \<and> length (Re_out out) = 10"
    by (intro exI [of _ sol] exI [of _ out]) simp
  have b: "simulate euler_odeint 1000 (3/10) 0 0 1 1 = Inl ZeroDivisionError"
    using time_grid_and_lengths [of 1 1000 "3/10" 0 0 1] by auto
  show ?thesis by (intro conjI g a b) simp_all
qed

end
